theory Spec2Isabelle
  imports Main "HOL-Library.Word" "HOL-Library.Monad_Syntax"
begin

unbundle bit_operations_syntax

section \<open>Bytes, characters and C strings\<close>

text \<open>
  The server is C code working on raw bytes. A byte of a frame or an attribute is an
  8-bit word; the characters of a path or a file name are \<open>char\<close>s. A C string is the
  run of characters in front of the first NUL.
\<close>

type_synonym byte = "8 word"

definition NUL :: char where
  "NUL = CHR 0x00"

definition cstr :: "string \<Rightarrow> string" where
  "cstr s = takeWhile (\<lambda>c. c \<noteq> NUL) s"

definition byte_char :: "byte \<Rightarrow> char" where
  "byte_char b = char_of (unat b)"

definition char_byte :: "char \<Rightarrow> byte" where
  "char_byte c = of_nat (of_char c)"

text \<open>\<open>upchar\<close> of fs.c: \<open>if ((c >= 'a') && (c <= 'z')) c -= ('a' - 'A')\<close>.\<close>

definition upchar :: "char \<Rightarrow> char" where
  "upchar c = (let n = (of_char c :: nat) in
     if 97 \<le> n \<and> n \<le> 122 then char_of (n - 32) else c)"

text \<open>\<open>lochar\<close> of ethersrv.c: \<open>if ((c >= 'A') && (c <= 'Z')) c += ('a' - 'A')\<close>.\<close>

definition lochar :: "char \<Rightarrow> char" where
  "lochar c = (let n = (of_char c :: nat) in
     if 65 \<le> n \<and> n \<le> 90 then char_of (n + 32) else c)"

section \<open>FCB names (fs.c)\<close>

text \<open>
  \<open>filename2fcb(d, s)\<close> fills the 11-byte block \<open>d\<close> from the C string \<open>s\<close>.
  The source has four loops; each one is a function here.

  First loop, \<open>for (i = 0; i < 8; i++) { if (s[i] != '.') break; d[i] = '.'; }\<close>:
  \<open>dotrun n s\<close> is the number of iterations that write a dot, with \<open>n\<close> iterations left.
\<close>

fun dotrun :: "nat \<Rightarrow> string \<Rightarrow> nat" where
  "dotrun 0 s = 0"
| "dotrun (Suc n) [] = 0"
| "dotrun (Suc n) (c # s) = (if c = CHR ''.'' then Suc (dotrun n s) else 0)"

text \<open>
  Second loop, with \<open>n = 8 - i\<close> iterations left and the read pointer \<open>s + j\<close>:
  \<^verbatim>\<open>
  for (; i < 8; i++) {
    if ((s[j] == '.') || (s[j] == 0)) break;
    while ((s[j]) == ' ') j++;
    d[i] = upchar(s[j]);
    j++;
  }
  \<close>
  The pointer is \<open>Some r\<close> when \<open>s + j\<close> is inside the string or on its terminator
  (\<open>r\<close> is what is left in front of the terminator) and \<open>None\<close> when \<open>j\<close> went past the
  terminator: the inner \<open>while\<close> can stop on the terminator, \<open>d[i]\<close> then receives
  \<open>upchar(0)\<close> and \<open>j++\<close> steps over the end of the string. The next iteration
  would read outside the string; the model returns \<open>None\<close> there. The result is the
  run of characters written to \<open>d[i..]\<close>.
\<close>

fun namefill :: "nat \<Rightarrow> string option \<Rightarrow> string option" where
  "namefill 0 p = Some []"
| "namefill (Suc n) None = None"
| "namefill (Suc n) (Some []) = Some []"
| "namefill (Suc n) (Some (c # r)) =
     (if c = CHR ''.'' then Some []
      else (case dropWhile (\<lambda>x. x = CHR '' '') (c # r) of
              [] \<Rightarrow> map_option ((#) (upchar NUL)) (namefill n None)
            | x # r' \<Rightarrow> map_option ((#) (upchar x)) (namefill n (Some r'))))"

text \<open>
  Fourth loop, \<open>for (j = 0; j < 3; j++) { if ((s[j] == '.') || (s[j] == 0) || (s[j] == ' ')) break;
  *d = upchar(s[j]); d++; }\<close>.
\<close>

fun extfill :: "nat \<Rightarrow> string \<Rightarrow> string" where
  "extfill 0 s = []"
| "extfill (Suc n) [] = []"
| "extfill (Suc n) (c # s) =
     (if c = CHR ''.'' \<or> c = CHR '' '' then [] else upchar c # extfill n s)"

definition pad :: "nat \<Rightarrow> string \<Rightarrow> string" where
  "pad n s = s @ replicate (n - length s) CHR '' ''"

text \<open>
  The whole function. After the second loop \<open>s += i\<close> (\<open>i\<close> bytes were written to the
  base field), the third loop \<open>for (; ((*s != '.') && (*s != 0)); s++);\<close> runs to the
  first dot or to the terminator, and the extension is read behind the dot.
\<close>

definition filename2fcb :: "string \<Rightarrow> string option" where
  "filename2fcb s0 =
     (let s = cstr s0;
          k = dotrun 8 s
      in case namefill (8 - k) (Some (drop k s)) of
           None \<Rightarrow> None
         | Some b \<Rightarrow>
             (let i = k + length b;
                  base = pad 8 (replicate k CHR ''.'' @ b)
              in if length s < i then None
                 else (case dropWhile (\<lambda>c. c \<noteq> CHR ''.'') (drop i s) of
                         [] \<Rightarrow> Some (base @ pad 3 [])
                       | _ # e \<Rightarrow> Some (base @ pad 3 (extfill 3 e)))))"

text \<open>
  \<open>matchfile2mask(msk, fil)\<close>: both blocks are exactly 11 bytes; the model compares
  11 positions and is only called on blocks of that length.
\<close>

definition matchfile2mask :: "string \<Rightarrow> string \<Rightarrow> bool" where
  "matchfile2mask msk fil =
     (\<forall>i \<in> set [0 ..< 11]. \<not> (upchar (fil ! i) \<noteq> upchar (msk ! i) \<and> msk ! i \<noteq> CHR ''?''))"



section \<open>The host operating system\<close>

text \<open>
  The server calls the host through libc: \<open>stat\<close>, \<open>opendir\<close>/\<open>readdir\<close>, \<open>unlink\<close>,
  \<open>rename\<close>, \<open>truncate\<close>, \<open>mkdir\<close>, \<open>rmdir\<close>, \<open>chdir\<close>, \<open>fopen\<close>/\<open>fread\<close>/\<open>fwrite\<close>,
  \<open>statvfs\<close>, the FAT attribute ioctls, \<open>malloc\<close> and \<open>time\<close>. None of this is in the
  repository; this section is the environment the embedding runs against: a small file
  tree in the order \<open>readdir\<close> lists it.

  A node is kept under its canonical path (the list of its components below \<open>/\<close>); the
  root directory is the node under \<open>[]\<close>. Modification times are kept broken down, as
  \<open>localtime\<close> returns them.
\<close>

record tm =
  tm_year :: int
  tm_mon :: int
  tm_mday :: int
  tm_hour :: int
  tm_min :: int
  tm_sec :: int

datatype dtype = DT_DIR | DT_REG | DT_OTHER

record hnode =
  d_type :: dtype
  st_mtime :: tm
  content :: "byte list"
  fat_attr :: "32 word option"

record statvfs =
  f_blocks :: "64 word"
  f_frsize :: "64 word"
  f_bfree :: "64 word"
  f_bsize :: "64 word"

record host =
  fs :: "(string list \<times> hnode) list"
  cwd :: string
  vfs :: "statvfs option"
  mem_ok :: bool
  clock :: int
  clock_tm :: tm
  junk :: "64 word"

text \<open>
  \<open>vfs\<close> is what \<open>statvfs\<close> returns (\<open>None\<close>: the call fails); \<open>mem_ok\<close> says whether
  \<open>strdup\<close> and \<open>calloc\<close> succeed; \<open>clock\<close> is \<open>time(NULL)\<close> and \<open>clock_tm\<close> the same
  instant broken down; \<open>junk\<close> is the content of an uninitialised 64-bit local variable.
\<close>

fun split_on :: "char \<Rightarrow> string \<Rightarrow> string list" where
  "split_on sep [] = [[]]"
| "split_on sep (c # s) =
     (if c = sep then [] # split_on sep s
      else (case split_on sep s of [] \<Rightarrow> [[c]] | t # ts \<Rightarrow> (c # t) # ts))"

text \<open>The non-empty runs between separators: the components of a path, the tokens of \<open>strtok\<close>.\<close>

definition tokens :: "char \<Rightarrow> string \<Rightarrow> string list" where
  "tokens sep s = filter (\<lambda>t. t \<noteq> []) (split_on sep s)"

definition node_at :: "host \<Rightarrow> string list \<Rightarrow> hnode option" where
  "node_at h p = map_of (fs h) p"

text \<open>
  Path resolution walks the components from a directory: every component is looked up
  in an existing directory; \<open>.\<close> stays, \<open>..\<close> goes up. The result is the canonical
  path of the target, which itself need not exist.
\<close>

fun walk :: "host \<Rightarrow> string list \<Rightarrow> string list \<Rightarrow> string list option" where
  "walk h cur [] = Some cur"
| "walk h cur (c # cs) =
     (case node_at h cur of
        None \<Rightarrow> None
      | Some n \<Rightarrow>
          if d_type n \<noteq> DT_DIR then None
          else if c = ''.'' then walk h cur cs
          else if c = ''..'' then walk h (butlast cur) cs
          else walk h (cur @ [c]) cs)"

definition resolve :: "host \<Rightarrow> string \<Rightarrow> string list option" where
  "resolve h p =
     (if p = [] then None
      else if hd p = CHR ''/'' then walk h [] (tokens CHR ''/'' p)
      else walk h [] (tokens CHR ''/'' (cwd h) @ tokens CHR ''/'' p))"

definition h_stat :: "host \<Rightarrow> string \<Rightarrow> hnode option" where
  "h_stat h p = (case resolve h p of None \<Rightarrow> None | Some cp \<Rightarrow> node_at h cp)"

definition children :: "host \<Rightarrow> string list \<Rightarrow> (string \<times> dtype) list" where
  "children h cp = map (\<lambda>(q, n). (last q, d_type n))
                       (filter (\<lambda>(q, n). q \<noteq> [] \<and> butlast q = cp) (fs h))"

text \<open>\<open>opendir\<close> and all the \<open>readdir\<close> calls on it: the entries \<open>(d_name, d_type)\<close>.\<close>

definition h_readdir :: "host \<Rightarrow> string \<Rightarrow> (string \<times> dtype) list option" where
  "h_readdir h p =
     (case resolve h p of
        None \<Rightarrow> None
      | Some cp \<Rightarrow>
          (case node_at h cp of
             None \<Rightarrow> None
           | Some n \<Rightarrow>
               if d_type n = DT_DIR
               then Some ((''.'', DT_DIR) # (''..'', DT_DIR) # children h cp)
               else None))"

text \<open>The calls that change the tree return the new host, or \<open>None\<close> when the call fails.\<close>

definition h_unlink :: "host \<Rightarrow> string \<Rightarrow> host option" where
  "h_unlink h p =
     (case resolve h p of
        None \<Rightarrow> None
      | Some cp \<Rightarrow>
          (case node_at h cp of
             None \<Rightarrow> None
           | Some n \<Rightarrow>
               if d_type n = DT_DIR then None
               else Some (h\<lparr>fs := filter (\<lambda>(q, n). q \<noteq> cp) (fs h)\<rparr>)))"

definition set_node :: "host \<Rightarrow> string list \<Rightarrow> hnode \<Rightarrow> host" where
  "set_node h cp n =
     (if map_of (fs h) cp = None then h\<lparr>fs := fs h @ [(cp, n)]\<rparr>
      else h\<lparr>fs := map (\<lambda>(q, m). if q = cp then (q, n) else (q, m)) (fs h)\<rparr>)"

definition resize :: "nat \<Rightarrow> byte list \<Rightarrow> byte list" where
  "resize n bs = take n bs @ replicate (n - length bs) 0"

definition h_truncate :: "host \<Rightarrow> string \<Rightarrow> nat \<Rightarrow> host option" where
  "h_truncate h p n =
     (case resolve h p of
        None \<Rightarrow> None
      | Some cp \<Rightarrow>
          (case node_at h cp of
             None \<Rightarrow> None
           | Some m \<Rightarrow>
               if d_type m = DT_REG
               then Some (set_node h cp (m\<lparr>content := resize n (content m), st_mtime := clock_tm h\<rparr>))
               else None))"

definition new_dir :: "host \<Rightarrow> hnode" where
  "new_dir h = \<lparr>d_type = DT_DIR, st_mtime = clock_tm h, content = [], fat_attr = None\<rparr>"

definition is_fat :: "host \<Rightarrow> bool" where
  "is_fat h = (case node_at h [] of None \<Rightarrow> False | Some n \<Rightarrow> fat_attr n \<noteq> None)"

definition new_file :: "host \<Rightarrow> hnode" where
  "new_file h = \<lparr>d_type = DT_REG, st_mtime = clock_tm h, content = [],
                 fat_attr = (if is_fat h then Some 0x20 else None)\<rparr>"

definition h_mkdir :: "host \<Rightarrow> string \<Rightarrow> host option" where
  "h_mkdir h p =
     (case resolve h p of
        None \<Rightarrow> None
      | Some cp \<Rightarrow>
          (case node_at h cp of
             Some n \<Rightarrow> None
           | None \<Rightarrow> Some (set_node h cp (new_dir h))))"

definition h_rmdir :: "host \<Rightarrow> string \<Rightarrow> host option" where
  "h_rmdir h p =
     (case resolve h p of
        None \<Rightarrow> None
      | Some cp \<Rightarrow>
          (case node_at h cp of
             None \<Rightarrow> None
           | Some n \<Rightarrow>
               if d_type n = DT_DIR \<and> cp \<noteq> [] \<and> children h cp = []
               then Some (h\<lparr>fs := filter (\<lambda>(q, n). q \<noteq> cp) (fs h)\<rparr>)
               else None))"

definition h_chdir :: "host \<Rightarrow> string \<Rightarrow> host option" where
  "h_chdir h p =
     (case h_stat h p of
        None \<Rightarrow> None
      | Some n \<Rightarrow> if d_type n = DT_DIR then Some (h\<lparr>cwd := p\<rparr>) else None)"

text \<open>
  \<open>rename\<close>: the source must exist, the target must not lie below the source; an
  existing target is replaced when neither is a directory. The node (a directory with
  everything below it) keeps its place in the listing order.
\<close>

definition is_prefix :: "string list \<Rightarrow> string list \<Rightarrow> bool" where
  "is_prefix a b = (take (length a) b = a)"

definition h_rename :: "host \<Rightarrow> string \<Rightarrow> string \<Rightarrow> host option" where
  "h_rename h p1 p2 =
     (case (resolve h p1, resolve h p2) of
        (Some c1, Some c2) \<Rightarrow>
          (case node_at h c1 of
             None \<Rightarrow> None
           | Some n1 \<Rightarrow>
               if c1 = [] \<or> is_prefix c1 c2 \<and> c1 \<noteq> c2 then None
               else if c1 = c2 then Some h
               else (case node_at h c2 of
                       Some n2 \<Rightarrow>
                         if d_type n1 = DT_DIR \<or> d_type n2 = DT_DIR then None
                         else Some (h\<lparr>fs := map (\<lambda>(q, m). if q = c1 then (c2, m) else (q, m))
                                              (filter (\<lambda>(q, m). q \<noteq> c2) (fs h))\<rparr>)
                     | None \<Rightarrow>
                         Some (h\<lparr>fs := map (\<lambda>(q, m). if is_prefix c1 q
                                                      then (c2 @ drop (length c1) q, m)
                                                      else (q, m)) (fs h)\<rparr>)))
      | _ \<Rightarrow> None)"

text \<open>\<open>fopen(path, "wb")\<close> followed by \<open>fclose\<close>: the file is created or emptied.\<close>

definition h_creat :: "host \<Rightarrow> string \<Rightarrow> host option" where
  "h_creat h p =
     (case resolve h p of
        None \<Rightarrow> None
      | Some cp \<Rightarrow>
          (case node_at h cp of
             None \<Rightarrow> Some (set_node h cp (new_file h))
           | Some n \<Rightarrow>
               if d_type n = DT_REG
               then Some (set_node h cp (n\<lparr>content := [], st_mtime := clock_tm h\<rparr>))
               else None))"

text \<open>
  \<open>fopen(path, "rb")\<close>, \<open>fseek\<close>, \<open>fread\<close>: the bytes read. A directory can be opened for
  reading, and reading it returns nothing.
\<close>

definition h_pread :: "host \<Rightarrow> string \<Rightarrow> nat \<Rightarrow> nat \<Rightarrow> byte list option" where
  "h_pread h p off len =
     (case h_stat h p of
        None \<Rightarrow> None
      | Some n \<Rightarrow> if d_type n = DT_REG then Some (take len (drop off (content n))) else Some [])"

text \<open>\<open>fopen(path, "r+b")\<close>, \<open>fseek\<close>, \<open>fwrite\<close>: a gap in front of the offset reads as zeros.\<close>

definition h_pwrite :: "host \<Rightarrow> string \<Rightarrow> nat \<Rightarrow> byte list \<Rightarrow> host option" where
  "h_pwrite h p off bs =
     (case resolve h p of
        None \<Rightarrow> None
      | Some cp \<Rightarrow>
          (case node_at h cp of
             None \<Rightarrow> None
           | Some n \<Rightarrow>
               if d_type n = DT_REG
               then Some (set_node h cp
                      (n\<lparr>content := resize off (content n) @ bs @ drop (off + length bs) (content n),
                         st_mtime := clock_tm h\<rparr>))
               else None))"

text \<open>\<open>FAT_IOCTL_SET_ATTRIBUTES\<close> works on the nodes of a FAT file system only.\<close>

definition h_set_fat_attr :: "host \<Rightarrow> string \<Rightarrow> byte \<Rightarrow> host option" where
  "h_set_fat_attr h p a =
     (case resolve h p of
        None \<Rightarrow> None
      | Some cp \<Rightarrow>
          (case node_at h cp of
             None \<Rightarrow> None
           | Some n \<Rightarrow>
               if fat_attr n = None then None
               else Some (set_node h cp (n\<lparr>fat_attr := Some (ucast a)\<rparr>))))"

section \<open>The file cache and the file operations (fs.c)\<close>

text \<open>
  Modelled from the spec: \<open>struct fileprops\<close> and the flags \<open>FFILE_ISROOT\<close> and
  \<open>FFILE_ISFAT\<close> are declared in fs.h, which is not part of the sources at hand. The record
  has the four fields the code uses, with the widths of the spec's data model (an
  attribute byte, a 32-bit size, a 32-bit DOS time stamp, an 11-byte FCB name); the two
  flags are the two booleans of \<open>fflags\<close>.
\<close>

record fileprops =
  fattr :: byte
  fsize :: "32 word"
  ftime :: "32 word"
  fcbname :: string

record fflags =
  isroot_flag :: bool
  isfat_flag :: bool

definition zero_fileprops :: fileprops where
  "zero_fileprops = \<lparr>fattr = 0, fsize = 0, ftime = 0, fcbname = replicate 11 NUL\<rparr>"

text \<open>
  The pointer \<open>dirlist\<close> of a cache slot: \<open>NULL\<close>, a linked list of entries, or a pointer
  to a list that \<open>freedirlist\<close> has freed (\<open>gendirlist\<close> frees the old list and does not
  reset the pointer).
\<close>

datatype dirptr = DNull | DList "fileprops list" | DFreed

record sfsdb =
  name :: "string option"
  lastused :: int
  dirlist :: dirptr

type_synonym fsdb = "nat \<Rightarrow> sfsdb"

definition zero_slot :: sfsdb where
  "zero_slot = \<lparr>name = None, lastused = 0, dirlist = DNull\<rparr>"

definition fsdb_init :: fsdb where
  "fsdb_init = (\<lambda>i. zero_slot)"

text \<open>
  \<open>getitemss\<close>. The loop \<open>for (i = 0; i < 0xffffu; i++)\<close> with its local variables
  \<open>firstfree\<close> and \<open>oldest\<close>; a match returns from inside the loop (\<open>Inl\<close>), otherwise
  the loop ends with the two variables (\<open>Inr\<close>).
\<close>

function getitemss_loop ::
  "string \<Rightarrow> int \<Rightarrow> nat \<Rightarrow> nat \<Rightarrow> nat \<Rightarrow> fsdb \<Rightarrow> (nat + nat \<times> nat) \<times> fsdb" where
  "getitemss_loop f now i firstfree oldest db =
     (if i < 0xffff then
        (if name (db i) = Some f then (Inl i, db(i := (db i)\<lparr>lastused := now\<rparr>))
         else
           (let db1 = (if now - lastused (db i) > 3600 then db(i := zero_slot) else db)
            in if firstfree = 0xffff \<and> name (db1 i) = None
               then getitemss_loop f now (i + 1) i oldest db1
               else if lastused (db1 oldest) > lastused (db1 i)
               then getitemss_loop f now (i + 1) firstfree i db1
               else getitemss_loop f now (i + 1) firstfree oldest db1))
      else (Inr (firstfree, oldest), db))"
  by pat_completeness auto
termination
  by (relation "measure (\<lambda>(f, now, i, firstfree, oldest, db). 0xffff - i)") auto

text \<open>
  The whole function, at time \<open>now = time(NULL)\<close>; \<open>mem\<close> says whether \<open>strdup\<close>
  succeeds. The result is the 16-bit identifier (\<open>0xffff\<close> on error) and the new cache.
\<close>

definition getitemss :: "fsdb \<Rightarrow> string \<Rightarrow> int \<Rightarrow> bool \<Rightarrow> nat \<times> fsdb" where
  "getitemss db f now mem =
     (case getitemss_loop f now 0 0xffff 0 db of
        (Inl i, db1) \<Rightarrow> (i, db1)
      | (Inr (firstfree, oldest), db1) \<Rightarrow>
          (let (ff, db2) = (if firstfree = 0xffff then (oldest, db1(oldest := zero_slot))
                            else (firstfree, db1))
           in if \<not> mem then (0xffff, db2)
              else (ff, db2(ff := (db2 ff)\<lparr>name := Some f, lastused := now\<rparr>))))"

definition sstoitem :: "fsdb \<Rightarrow> nat \<Rightarrow> string option" where
  "sstoitem db ss = name (db ss)"

text \<open>\<open>time2dos\<close>, on the broken-down local time.\<close>

definition time2dos :: "tm \<Rightarrow> 64 word" where
  "time2dos t =
     (let res = (word_of_int (tm_year t - 80) :: 64 word);
          res = push_bit 4 res;
          res = res OR word_of_int (tm_mon t + 1);
          res = push_bit 5 res;
          res = res OR word_of_int (tm_mday t);
          res = push_bit 5 res;
          res = res OR word_of_int (tm_hour t);
          res = push_bit 6 res;
          res = res OR word_of_int (tm_min t);
          res = push_bit 5 res;
          res = res OR word_of_int (tm_sec t div 2)
      in res)"

text \<open>
  \<open>getitemattr\<close>. The loop that finds the file part of the path:
  \<open>if (((*ptr == '/') || (*ptr == '\\')) && (*(ptr+1) != 0)) fname = ptr + 1\<close>.
\<close>

fun fname_scan :: "string \<Rightarrow> string \<Rightarrow> string" where
  "fname_scan fname [] = fname"
| "fname_scan fname (c # r) =
     fname_scan (if (c = CHR ''/'' \<or> c = CHR 0x5C) \<and> r \<noteq> [] then r else fname) r"

text \<open>
  \<open>want\<close> says whether \<open>fprops\<close> is not \<open>NULL\<close>. The result is the returned attribute
  byte and what the call left in \<open>*fprops\<close> (\<open>None\<close>: nothing written). The whole
  result is \<open>None\<close> when \<open>filename2fcb\<close> reads outside its string.
\<close>

definition getitemattr :: "host \<Rightarrow> string \<Rightarrow> bool \<Rightarrow> byte \<Rightarrow> (byte \<times> fileprops option) option" where
  "getitemattr h i want fatflag =
     (case h_stat h (cstr i) of
        None \<Rightarrow> Some (0xff, None)
      | Some st \<Rightarrow>
          (case (if want then filename2fcb (fname_scan (cstr i) (cstr i)) else Some []) of
             None \<Rightarrow> None
           | Some fcb \<Rightarrow>
               (let fp = zero_fileprops\<lparr>ftime := ucast (time2dos (st_mtime st)), fcbname := fcb\<rparr>;
                    out = (\<lambda>p. if want then Some p else None)
                in if d_type st = DT_DIR then Some (16, out (fp\<lparr>fattr := 16\<rparr>))
                   else (let fp = fp\<lparr>fsize := of_nat (length (content st))\<rparr>
                         in if fatflag = 0 then Some (0x20, out fp)
                            else (case fat_attr st of
                                    None \<Rightarrow> Some (0, out fp)
                                  | Some attr \<Rightarrow> Some (ucast attr, out (fp\<lparr>fattr := ucast attr\<rparr>)))))))"

text \<open>\<open>setitemattr\<close>: 0 on success, -1 otherwise.\<close>

definition setitemattr :: "host \<Rightarrow> string \<Rightarrow> byte \<Rightarrow> int \<times> host" where
  "setitemattr h i a =
     (case h_set_fat_attr h (cstr i) a of None \<Rightarrow> (-1, h) | Some h' \<Rightarrow> (0, h'))"

text \<open>
  \<open>gendirlist\<close>: the entries of the directory, each with the properties that
  \<open>getitemattr\<close> finds (a node left zeroed by \<open>calloc\<close> when it fails). The first loop
  body that cannot allocate ends the listing. The result is the count (-1 on error) and
  the slot. \<open>None\<close> stands for the undefined behaviour of freeing a freed list, of a
  \<open>NULL\<close> directory name or of \<open>filename2fcb\<close>.
\<close>

fun gendirlist_loop :: "host \<Rightarrow> string \<Rightarrow> byte \<Rightarrow> (string \<times> dtype) list \<Rightarrow> fileprops list option" where
  "gendirlist_loop h dir fatflag [] = Some []"
| "gendirlist_loop h dir fatflag (e # es) =
     (if \<not> mem_ok h then Some []
      else (case getitemattr h (dir @ ''/'' @ fst e) True fatflag of
              None \<Rightarrow> None
            | Some (a, fp) \<Rightarrow>
                map_option ((#) (case fp of None \<Rightarrow> zero_fileprops | Some p \<Rightarrow> p))
                  (gendirlist_loop h dir fatflag es)))"

definition gendirlist :: "host \<Rightarrow> sfsdb \<Rightarrow> byte \<Rightarrow> (int \<times> sfsdb) option" where
  "gendirlist h root fatflag =
     (case dirlist root of
        DFreed \<Rightarrow> None
      | old \<Rightarrow>
          (let freed = (if old = DNull then DNull else DFreed)
           in case name root of
                None \<Rightarrow> None
              | Some nm \<Rightarrow>
                  (case h_readdir h nm of
                     None \<Rightarrow> Some (-1, root\<lparr>dirlist := freed\<rparr>)
                   | Some es \<Rightarrow>
                       (case gendirlist_loop h nm fatflag es of
                          None \<Rightarrow> None
                        | Some l \<Rightarrow>
                            Some (int (length l),
                                  root\<lparr>dirlist := (if l = [] then freed else DList l)\<rparr>)))))"

text \<open>
  \<open>findfile\<close>. The attribute test of its loop:
  \<^verbatim>\<open>
  if (attr == 0x08) { if ((dirlist->fprops.fattr & 0x08) == 0) continue; }
  else { if ((attr | (dirlist->fprops.fattr & 0x16)) != attr) continue; }
  \<close>
\<close>

definition attr_admits :: "byte \<Rightarrow> byte \<Rightarrow> bool" where
  "attr_admits attr fa =
     (if attr = 0x08 then \<not> (fa AND 0x08 = 0)
      else \<not> (attr OR (fa AND 0x16) \<noteq> attr))"

text \<open>
  The loop over the listing, with the counter \<open>n\<close> and \<open>pos\<close> for \<open>*nth\<close>: the position and the properties of
  the entry the loop breaks on, or \<open>None\<close> when it reaches the end of the list.
\<close>

fun findfile_loop ::
  "string \<Rightarrow> byte \<Rightarrow> nat \<Rightarrow> bool \<Rightarrow> nat \<Rightarrow> fileprops list \<Rightarrow> (nat \<times> fileprops) option" where
  "findfile_loop tmpl attr pos isroot n [] = None"
| "findfile_loop tmpl attr pos isroot n (e # es) =
     (let n = n + 1
      in if n \<le> pos then findfile_loop tmpl attr pos isroot n es
         else if hd (fcbname e) = CHR ''.'' \<and> isroot then findfile_loop tmpl attr pos isroot n es
         else if \<not> matchfile2mask tmpl (fcbname e) then findfile_loop tmpl attr pos isroot n es
         else if \<not> attr_admits attr (fattr e) then findfile_loop tmpl attr pos isroot n es
         else Some (n, e))"

text \<open>
  The whole function: the listing is computed again when \<open>*nth == 0\<close> or when the slot
  has none. The result is \<open>Some (f, nth)\<close> for a return of 0 (\<open>*nth = n\<close> is a store into
  an \<open>unsigned short\<close>) and \<open>None\<close> for a return of -1, with the new cache. Walking a freed
  list is undefined behaviour (the outer \<open>None\<close>).
\<close>

definition findfile ::
  "host \<Rightarrow> fsdb \<Rightarrow> nat \<Rightarrow> string \<Rightarrow> byte \<Rightarrow> nat \<Rightarrow> fflags \<Rightarrow> ((fileprops \<times> nat) option \<times> fsdb) option" where
  "findfile h db dss fcbtmpl attr pos flags =
     (case (if pos = 0 \<or> dirlist (db dss) = DNull
            then map_option (\<lambda>(count, slot). (count, db(dss := slot)))
                   (gendirlist h (db dss) (if isfat_flag flags then 1 else 0))
            else Some (0, db)) of
        None \<Rightarrow> None
      | Some (count, db1) \<Rightarrow>
          if count < 0 then Some (None, db1)
          else (case dirlist (db1 dss) of
                  DFreed \<Rightarrow> None
                | DNull \<Rightarrow> Some (None, db1)
                | DList l \<Rightarrow>
                    (case findfile_loop fcbtmpl attr pos (isroot_flag flags) 0 l of
                       None \<Rightarrow> Some (None, db1)
                     | Some (n, e) \<Rightarrow> Some (Some (e, n mod 65536), db1))))"

text \<open>\<open>createfile\<close>: 0 and the properties of the new file, or -1.\<close>

definition createfile ::
  "host \<Rightarrow> string \<Rightarrow> string \<Rightarrow> byte \<Rightarrow> byte \<Rightarrow> (int \<times> fileprops option \<times> host) option" where
  "createfile h d fn attr fatflag =
     (let fullpath = cstr d @ ''/'' @ cstr fn
      in case h_creat h fullpath of
           None \<Rightarrow> Some (-1, None, h)
         | Some h1 \<Rightarrow>
             (let h2 = (if fatflag \<noteq> 0 then snd (setitemattr h1 fullpath attr) else h1)
              in map_option (\<lambda>(a, fp). (0, fp, h2)) (getitemattr h2 fullpath True fatflag)))"

text \<open>
  \<open>diskinfo\<close>: the total size in bytes and what the call leaves in \<open>*dfree\<close>
  (\<open>None\<close>: not written). The products are those of \<open>unsigned long long\<close>.
\<close>

definition diskinfo :: "host \<Rightarrow> string \<Rightarrow> 64 word \<times> 64 word option" where
  "diskinfo h path =
     (case vfs h of
        None \<Rightarrow> (0, None)
      | Some buf \<Rightarrow> (f_blocks buf * f_frsize buf, Some (f_bfree buf * f_bsize buf)))"

definition makedir :: "host \<Rightarrow> string \<Rightarrow> int \<times> host" where
  "makedir h d = (case h_mkdir h (cstr d) of None \<Rightarrow> (-1, h) | Some h' \<Rightarrow> (0, h'))"

definition remdir :: "host \<Rightarrow> string \<Rightarrow> int \<times> host" where
  "remdir h d = (case h_rmdir h (cstr d) of None \<Rightarrow> (-1, h) | Some h' \<Rightarrow> (0, h'))"

definition changedir :: "host \<Rightarrow> string \<Rightarrow> int \<times> host" where
  "changedir h d = (case h_chdir h (cstr d) of None \<Rightarrow> (-1, h) | Some h' \<Rightarrow> (0, h'))"

text \<open>\<open>readfile\<close>: the bytes read into the buffer, or \<open>None\<close> for a negative return.\<close>

definition readfile :: "host \<Rightarrow> fsdb \<Rightarrow> nat \<Rightarrow> nat \<Rightarrow> nat \<Rightarrow> byte list option" where
  "readfile h db fss offset len =
     (case name (db fss) of
        None \<Rightarrow> None
      | Some fname \<Rightarrow> h_pread h fname offset len)"

text \<open>
  \<open>writefile\<close>: the return value and the new host. With \<open>len == 0\<close> the file is
  truncated or extended to \<open>offset\<close>; a failing \<open>truncate\<close> is reported on stderr only.
\<close>

definition writefile :: "host \<Rightarrow> fsdb \<Rightarrow> byte list \<Rightarrow> nat \<Rightarrow> nat \<Rightarrow> int \<times> host" where
  "writefile h db buff fss offset =
     (case name (db fss) of
        None \<Rightarrow> (-1, h)
      | Some fname \<Rightarrow>
          if length buff = 0
          then (case h_truncate h fname offset of None \<Rightarrow> (0, h) | Some h' \<Rightarrow> (0, h'))
          else (case h_pwrite h fname offset buff of
                  None \<Rightarrow> (-1, h)
                | Some h' \<Rightarrow> (int (length buff), h')))"

text \<open>
  \<open>delfiles\<close>. The first loop sets \<open>ispattern\<close> and leaves in \<open>fileoffset\<close> the index of
  the last \<open>/\<close> (0 when there is none).
\<close>

fun last_slash :: "nat \<Rightarrow> nat \<Rightarrow> string \<Rightarrow> nat" where
  "last_slash i fileoffset [] = fileoffset"
| "last_slash i fileoffset (c # s) = last_slash (i + 1) (if c = CHR ''/'' then i else fileoffset) s"

text \<open>The loop over the directory: directories are skipped, a failing \<open>unlink\<close> is only logged.\<close>

fun delfiles_loop :: "string \<Rightarrow> string \<Rightarrow> (string \<times> dtype) list \<Rightarrow> host \<Rightarrow> host option" where
  "delfiles_loop dir filfcb [] h = Some h"
| "delfiles_loop dir filfcb (e # es) h =
     (if snd e = DT_DIR then delfiles_loop dir filfcb es h
      else (case filename2fcb (fst e) of
              None \<Rightarrow> None
            | Some dirnamefcb \<Rightarrow>
                if matchfile2mask filfcb dirnamefcb
                then (case h_unlink h (dir @ ''/'' @ fst e) of
                        None \<Rightarrow> delfiles_loop dir filfcb es h
                      | Some h' \<Rightarrow> delfiles_loop dir filfcb es h')
                else delfiles_loop dir filfcb es h))"

definition delfiles :: "host \<Rightarrow> string \<Rightarrow> (int \<times> host) option" where
  "delfiles h pattern0 =
     (let pattern = cstr pattern0;
          ispattern = (CHR ''?'' \<in> set pattern);
          fileoffset = last_slash 0 0 pattern
      in if \<not> ispattern
         then (case h_unlink h pattern of None \<Rightarrow> Some (-1, h) | Some h' \<Rightarrow> Some (1, h'))
         else (let dir = take fileoffset pattern;
                   fil = drop (fileoffset + 1) pattern
               in case filename2fcb fil of
                    None \<Rightarrow> None
                  | Some filfcb \<Rightarrow>
                      (case h_readdir h dir of
                         None \<Rightarrow> Some (-1, h)
                       | Some es \<Rightarrow> map_option (Pair 0) (delfiles_loop dir filfcb es h))))"

definition renfile :: "host \<Rightarrow> string \<Rightarrow> string \<Rightarrow> int \<times> host" where
  "renfile h fn1 fn2 =
     (case h_rename h (cstr fn1) (cstr fn2) of None \<Rightarrow> (-1, h) | Some h' \<Rightarrow> (0, h'))"

text \<open>\<open>getfopsize\<close>: the size of the file behind a handle, or \<open>None\<close> for -1.\<close>

definition getfopsize :: "host \<Rightarrow> fsdb \<Rightarrow> nat \<Rightarrow> 32 word option option" where
  "getfopsize h db fss =
     (case name (db fss) of
        None \<Rightarrow> Some None
      | Some fname \<Rightarrow>
          (case getitemattr h fname True 0 of
             None \<Rightarrow> None
           | Some (a, fp) \<Rightarrow>
               if a = 0xff then Some None
               else Some (Some (case fp of None \<Rightarrow> 0 | Some p \<Rightarrow> fsize p))))"

text \<open>
  \<open>shorttolong\<close>. The inner loop looks through the entries of the directory for the
  first one whose FCB name equals (\<open>strcmp\<close>) that of the token and which is a directory
  unless the token is the last one.
\<close>

fun shorttolong_find :: "string \<Rightarrow> bool \<Rightarrow> (string \<times> dtype) list \<Rightarrow> string option option" where
  "shorttolong_find to_find_fcb notlast [] = Some None"
| "shorttolong_find to_find_fcb notlast (e # es) =
     (if fst e = ''.'' \<or> fst e = ''..'' then shorttolong_find to_find_fcb notlast es
      else (case filename2fcb (fst e) of
              None \<Rightarrow> None
            | Some tmp_fcb \<Rightarrow>
                if cstr tmp_fcb = cstr to_find_fcb
                then (if notlast \<and> snd e \<noteq> DT_DIR then shorttolong_find to_find_fcb notlast es
                      else Some (Some (fst e)))
                else shorttolong_find to_find_fcb notlast es))"

text \<open>
  The outer loop over the tokens of \<open>strtok(src, "/")\<close>, with the destination string
  written so far. The result is the return value and the destination string.
\<close>

fun shorttolong_walk :: "host \<Rightarrow> string \<Rightarrow> string list \<Rightarrow> (int \<times> string) option" where
  "shorttolong_walk h dst [] = Some (0, dst)"
| "shorttolong_walk h dst (tmpdir # rest) =
     (case filename2fcb tmpdir of
        None \<Rightarrow> None
      | Some to_find_fcb \<Rightarrow>
          (case h_readdir h dst of
             None \<Rightarrow> Some (-1, dst)
           | Some es \<Rightarrow>
               (case shorttolong_find to_find_fcb (rest \<noteq> []) es of
                  None \<Rightarrow> None
                | Some None \<Rightarrow> Some (-1, dst @ tmpdir)
                | Some (Some nm) \<Rightarrow>
                    shorttolong_walk h (dst @ nm @ (if rest \<noteq> [] then ''/'' else [])) rest)))"

text \<open>
  The whole function; \<open>None\<close> is the failing \<open>assert\<close> (the source does not start with
  the root) or the undefined behaviour of \<open>filename2fcb\<close>.
\<close>

definition shorttolong :: "host \<Rightarrow> string \<Rightarrow> string \<Rightarrow> (int \<times> string) option" where
  "shorttolong h src0 root =
     (let src = cstr src0
      in if take (length root) src \<noteq> root then None
         else (let src = drop (length root) src;
                   dst = root @ ''/''
               in if src = [] \<or> hd src \<noteq> CHR ''/'' then Some (-1, dst)
                  else shorttolong_walk h dst (tokens CHR ''/'' (tl src))))"

section \<open>The dispatcher (ethersrv.c)\<close>

text \<open>
  The answer cache: \<open>struct struct_answcache\<close>, 16 entries. The frame is a buffer of
  1520 bytes; \<open>len\<close> is an \<open>unsigned short\<close>.
\<close>

record answcache =
  frame :: "byte list"
  timestamp :: int
  alen :: nat

text \<open>
  The state outside the answer cache: the file cache of fs.c and the host. The
  configuration is set once by \<open>main\<close>: the interface address, the roots of the drives
  and the flags \<open>drivesfat\<close>.
\<close>

record world =
  fsdb_of :: fsdb
  host_of :: host

record config =
  mymac :: "byte list"
  rootarray :: "nat \<Rightarrow> string option"
  drivesfat :: "nat \<Rightarrow> byte"

subsection \<open>Reading and writing buffers\<close>

text \<open>
  A read of \<open>n\<close> bytes at an offset of a buffer; \<open>None\<close> when the read leaves the
  buffer. A write into a buffer; \<open>None\<close> when it does not fit.
\<close>

definition rd :: "byte list \<Rightarrow> nat \<Rightarrow> nat \<Rightarrow> byte list option" where
  "rd buf off n = (if off + n \<le> length buf then Some (take n (drop off buf)) else None)"

definition poke :: "byte list \<Rightarrow> nat \<Rightarrow> byte list \<Rightarrow> byte list option" where
  "poke buf off bs =
     (if off + length bs \<le> length buf
      then Some (take off buf @ bs @ drop (off + length bs) buf)
      else None)"

text \<open>Little-endian fields: \<open>le16toh\<close>, \<open>le32toh\<close>, \<open>htole16\<close>, \<open>htole32\<close>.\<close>

definition le16 :: "byte list \<Rightarrow> nat" where
  "le16 bs = unat (bs ! 0) + 256 * unat (bs ! 1)"

definition le32 :: "byte list \<Rightarrow> nat" where
  "le32 bs = unat (bs ! 0) + 256 * unat (bs ! 1) + 65536 * unat (bs ! 2) + 16777216 * unat (bs ! 3)"

definition put16 :: "nat \<Rightarrow> byte list" where
  "put16 n = [of_nat (n mod 256), of_nat (n div 256 mod 256)]"

definition put32 :: "32 word \<Rightarrow> byte list" where
  "put32 w = [ucast w, ucast (drop_bit 8 w), ucast (drop_bit 16 w), ucast (drop_bit 24 w)]"

subsection \<open>String helpers\<close>

text \<open>\<open>charreplace(s, '\\', '/')\<close>.\<close>

definition charreplace :: "string \<Rightarrow> string" where
  "charreplace s = map (\<lambda>c. if c = CHR 0x5C then CHR ''/'' else c) s"

text \<open>
  The path buffers of the handlers are all filled the same way:
  \<open>offset = sprintf(buf, "%s/", root); memcpy(buf + offset, bytes, n); buf[offset + n] = 0;
  lostring(buf + offset, -1); charreplace(buf, '\\', '/')\<close>.
  The buffers (\<open>DIR_MAX\<close> of fs.h, or 1024 bytes) are taken to be large enough.
\<close>

definition hostpath :: "string \<Rightarrow> byte list \<Rightarrow> string" where
  "hostpath root bs = charreplace (root @ ''/'' @ map lochar (cstr (map byte_char bs)))"

text \<open>
  \<open>isroot(root, dir)\<close>: both pointers advance to the end of the shorter string, the
  leading slashes of what is left of \<open>dir\<close> are skipped, and a further slash means
  "not root" (the function returns 1 for root).
\<close>

definition isroot :: "string \<Rightarrow> string \<Rightarrow> bool" where
  "isroot root dir =
     (CHR ''/'' \<notin> set (dropWhile (\<lambda>c. c = CHR ''/'') (drop (length (cstr root)) (cstr dir))))"

text \<open>
  \<open>explodepath(dir, file, source, sourcelen)\<close>. \<open>src\<close> is the buffer from \<open>source\<close> on.
  The loop leaves in \<open>lastbackslash\<close> the index of the last slash or backslash among
  the first \<open>sourcelen\<close> bytes (0 when there is none). \<open>None\<close>: a read outside the
  buffer, or a \<open>memcpy\<close> of negative length.
\<close>

fun lastbackslash_loop :: "nat \<Rightarrow> nat \<Rightarrow> string \<Rightarrow> nat" where
  "lastbackslash_loop i lb [] = lb"
| "lastbackslash_loop i lb (c # s) =
     lastbackslash_loop (i + 1) (if c = CHR 0x5C \<or> c = CHR ''/'' then i else lb) s"

definition explodepath :: "byte list \<Rightarrow> int \<Rightarrow> (string \<times> string) option" where
  "explodepath src0 sourcelen0 =
     (if length src0 < 2 then None
      else (let skip = (byte_char (src0 ! 1) = CHR '':'');
                src = map byte_char (if skip then drop 2 src0 else src0);
                sourcelen = (if skip then sourcelen0 - 2 else sourcelen0);
                lb = lastbackslash_loop 0 0 (take (nat sourcelen) src)
            in if sourcelen - (int lb + 1) < 0 \<or> int (length src) < sourcelen \<or> length src < lb + 1
               then None
               else Some (take (lb + 1) src, take (nat sourcelen - (lb + 1)) (drop (lb + 1) src))))"

text \<open>\<open>copy_after_last_slash(dst, src)\<close>: \<open>dst\<close> is left alone when \<open>src\<close> has no slash.\<close>

definition copy_after_last_slash :: "string \<Rightarrow> string \<Rightarrow> string" where
  "copy_after_last_slash dst src =
     (if CHR ''/'' \<in> set src then rev (takeWhile (\<lambda>c. c \<noteq> CHR ''/'') (rev src)) else dst)"

subsection \<open>The answer cache\<close>

text \<open>\<open>findcacheentry\<close>: the index of the entry of a client.\<close>

fun findcacheentry_loop :: "answcache list \<Rightarrow> byte list \<Rightarrow> nat \<Rightarrow> nat \<Rightarrow> nat \<Rightarrow> nat" where
  "findcacheentry_loop cache clientmac 0 i oldest = oldest"
| "findcacheentry_loop cache clientmac (Suc n) i oldest =
     (if take 6 (frame (cache ! i)) = clientmac then i
      else findcacheentry_loop cache clientmac n (i + 1)
             (if timestamp (cache ! i) < timestamp (cache ! oldest) then i else oldest))"

definition ANSWCACHESZ :: nat where
  "ANSWCACHESZ = 16"

definition findcacheentry :: "answcache list \<Rightarrow> byte list \<Rightarrow> nat" where
  "findcacheentry cache clientmac = findcacheentry_loop cache clientmac ANSWCACHESZ 0 0"

subsection \<open>The subfunctions\<close>

text \<open>
  What a branch of \<open>process\<close> leaves behind: a \<open>return\<close> from inside the branch, or the
  value of \<open>*ax\<close> and the \<open>reslen\<close> bytes written behind the header of the answer.
\<close>

datatype dres = Ret int | Ans nat "byte list"

definition reply_entry :: "fileprops \<Rightarrow> byte list" where
  "reply_entry fp = fattr fp # map char_byte (take 11 (fcbname fp)) @ put32 (ftime fp) @ put32 (fsize fp)"

text \<open>\<open>AL_DISKSPACE\<close>.\<close>

definition clamp2g :: "64 word \<Rightarrow> 64 word" where
  "clamp2g x = (if x \<ge> 2 * 1024 * 1024 * 1024 then 2 * 1024 * 1024 * 1024 - 1 else x)"

definition do_diskspace :: "string \<Rightarrow> world \<Rightarrow> dres \<times> world" where
  "do_diskspace root w =
     (let (diskspace, dfree) = diskinfo (host_of w) root;
          freespace = (case dfree of None \<Rightarrow> junk (host_of w) | Some f \<Rightarrow> f);
          diskspace = clamp2g diskspace;
          freespace = clamp2g freespace;
          diskspace = drop_bit 15 diskspace;
          freespace = drop_bit 15 freespace
      in (Ans 1 (put16 (unat diskspace) @ put16 32768 @ put16 (unat freespace)), w))"

text \<open>\<open>AL_READFIL\<close>, entered with \<open>reqbufflen == 8\<close>.\<close>

definition do_readfil :: "byte list \<Rightarrow> world \<Rightarrow> (dres \<times> world) option" where
  "do_readfil req w =
     do {
       b \<leftarrow> rd req 0 8;
       let offset = le32 (take 4 b);
       let fileid = le16 (take 2 (drop 4 b));
       let len = le16 (drop 6 b);
       Some (case readfile (host_of w) (fsdb_of w) fileid offset len of
               None \<Rightarrow> (Ans 5 [], w)
             | Some bs \<Rightarrow> (Ans 0 bs, w))
     }"

text \<open>\<open>AL_WRITEFIL\<close>, entered with \<open>reqbufflen >= 6\<close>.\<close>

definition do_writefil :: "byte list \<Rightarrow> int \<Rightarrow> world \<Rightarrow> (dres \<times> world) option" where
  "do_writefil req reqbufflen w =
     do {
       b \<leftarrow> rd req 0 (nat reqbufflen);
       let offset = le32 (take 4 b);
       let fileid = le16 (take 2 (drop 4 b));
       let (writelen, h) = writefile (host_of w) (fsdb_of w) (drop 6 b) fileid offset;
       Some (if writelen < 0 then (Ans 5 [], w\<lparr>host_of := h\<rparr>)
             else (Ans 0 (put16 (nat writelen)), w\<lparr>host_of := h\<rparr>))
     }"

text \<open>\<open>AL_FINDFIRST\<close>.\<close>

definition do_findfirst :: "config \<Rightarrow> nat \<Rightarrow> string \<Rightarrow> byte list \<Rightarrow> int \<Rightarrow> world \<Rightarrow> (dres \<times> world) option" where
  "do_findfirst cfg reqdrv root req reqbufflen w =
     do {
       b \<leftarrow> rd req 0 1;
       let attrb = b ! 0;
       (dir, filemask) \<leftarrow> explodepath (drop 1 req) (reqbufflen - 1);
       let directory = charreplace (root @ ''/'' @ map lochar (cstr dir));
       let filemask = map lochar (cstr filemask);
       filemaskfcb \<leftarrow> filename2fcb filemask;
       let flags = \<lparr>isroot_flag = isroot root directory, isfat_flag = (drivesfat cfg reqdrv \<noteq> 0)\<rparr>;
       (r, host_directory) \<leftarrow> shorttolong (host_of w) directory root;
       let (dirss, db) = getitemss (fsdb_of w) host_directory (clock (host_of w)) (mem_ok (host_of w));
       if dirss = 0xffff then Some (Ans 0x12 [], w\<lparr>fsdb_of := db\<rparr>)
       else do {
         (found, db') \<leftarrow> findfile (host_of w) db dirss filemaskfcb attrb 0 flags;
         Some (case found of
                 None \<Rightarrow> (Ans 0x12 [], w\<lparr>fsdb_of := db'\<rparr>)
               | Some (fprops, fpos) \<Rightarrow>
                   (Ans 0 (reply_entry fprops @ put16 dirss @ put16 fpos), w\<lparr>fsdb_of := db'\<rparr>))
       }
     }"

text \<open>\<open>AL_FINDNEXT\<close>.\<close>

definition do_findnext :: "config \<Rightarrow> nat \<Rightarrow> string \<Rightarrow> byte list \<Rightarrow> world \<Rightarrow> (dres \<times> world) option" where
  "do_findnext cfg reqdrv root req w =
     do {
       b \<leftarrow> rd req 0 16;
       let dirss = le16 (take 2 b);
       let fpos = le16 (take 2 (drop 2 b));
       let attrb = b ! 4;
       let fcbmask = map byte_char (drop 5 b);
       dirname \<leftarrow> sstoitem (fsdb_of w) dirss;
       let flags = \<lparr>isroot_flag = isroot root dirname, isfat_flag = (drivesfat cfg reqdrv \<noteq> 0)\<rparr>;
       (found, db') \<leftarrow> findfile (host_of w) (fsdb_of w) dirss fcbmask attrb fpos flags;
       Some (case found of
               None \<Rightarrow> (Ans 0x12 [], w\<lparr>fsdb_of := db'\<rparr>)
             | Some (fprops, fpos') \<Rightarrow>
                 (Ans 0 (reply_entry fprops @ put16 dirss @ put16 fpos'), w\<lparr>fsdb_of := db'\<rparr>))
     }"

text \<open>\<open>AL_MKDIR\<close> and \<open>AL_RMDIR\<close>.\<close>

definition do_mkrmdir :: "bool \<Rightarrow> string \<Rightarrow> byte list \<Rightarrow> int \<Rightarrow> world \<Rightarrow> (dres \<times> world) option" where
  "do_mkrmdir mk root req reqbufflen w =
     do {
       b \<leftarrow> rd req 0 (nat reqbufflen);
       let directory = hostpath root b;
       (r, host_directory) \<leftarrow> shorttolong (host_of w) directory root;
       let (res, h) = (if mk then makedir (host_of w) host_directory
                       else remdir (host_of w) host_directory);
       Some (Ans (if res \<noteq> 0 then 29 else 0) [], w\<lparr>host_of := h\<rparr>)
     }"

text \<open>\<open>AL_CHDIR\<close>.\<close>

definition do_chdir :: "string \<Rightarrow> byte list \<Rightarrow> int \<Rightarrow> world \<Rightarrow> (dres \<times> world) option" where
  "do_chdir root req reqbufflen w =
     do {
       b \<leftarrow> rd req 0 (nat reqbufflen);
       let directory = hostpath root b;
       (r, host_directory) \<leftarrow> shorttolong (host_of w) directory root;
       if r \<noteq> 0 then Some (Ans 3 [], w)
       else (let (res, h) = changedir (host_of w) host_directory
             in Some (Ans (if res \<noteq> 0 then 3 else 0) [], w\<lparr>host_of := h\<rparr>))
     }"

text \<open>\<open>AL_SETATTR\<close>, entered with \<open>reqbufflen > 1\<close>.\<close>

definition do_setattr :: "config \<Rightarrow> nat \<Rightarrow> string \<Rightarrow> byte list \<Rightarrow> int \<Rightarrow> world \<Rightarrow> (dres \<times> world) option" where
  "do_setattr cfg reqdrv root req reqbufflen w =
     do {
       b \<leftarrow> rd req 0 (nat reqbufflen);
       let attrb = b ! 0;
       let fullpathname = hostpath root (drop 1 b);
       (r, host_fullpathname) \<leftarrow> shorttolong (host_of w) fullpathname root;
       if r \<noteq> 0 then Some (Ans 2 [], w)
       else if drivesfat cfg reqdrv \<noteq> 0
       then (let (res, h) = setitemattr (host_of w) host_fullpathname attrb
             in Some (Ans (if res \<noteq> 0 then 2 else 0) [], w\<lparr>host_of := h\<rparr>))
       else Some (Ans 0 [], w)
     }"

text \<open>\<open>AL_GETATTR\<close>, entered with \<open>reqbufflen > 0\<close>.\<close>

definition do_getattr :: "config \<Rightarrow> nat \<Rightarrow> string \<Rightarrow> byte list \<Rightarrow> int \<Rightarrow> world \<Rightarrow> (dres \<times> world) option" where
  "do_getattr cfg reqdrv root req reqbufflen w =
     do {
       b \<leftarrow> rd req 0 (nat reqbufflen);
       let fullpathname = hostpath root b;
       (r, host_fullpathname) \<leftarrow> shorttolong (host_of w) fullpathname root;
       if r \<noteq> 0 then Some (Ans 2 [], w)
       else do {
         (a, fp) \<leftarrow> getitemattr (host_of w) host_fullpathname True (drivesfat cfg reqdrv);
         if a = 0xff then Some (Ans 2 [], w)
         else do {
           fprops \<leftarrow> fp;
           Some (Ans 0 (put32 (ftime fprops) @ put32 (fsize fprops) @ [fattr fprops]), w)
         }
       }
     }"

text \<open>
  \<open>AL_RENAME\<close>, entered with \<open>reqbufflen > 2\<close>. The two path buffers of the branch are
  functions of their own, so that theorems can name them.
\<close>

definition rename_fn1 :: "string \<Rightarrow> byte list \<Rightarrow> string" where
  "rename_fn1 root b = hostpath root (take (unat (b ! 0)) (drop 1 b))"

definition rename_fn2 :: "string \<Rightarrow> byte list \<Rightarrow> string" where
  "rename_fn2 root b = hostpath root (drop (1 + unat (b ! 0)) b)"

definition do_rename :: "string \<Rightarrow> byte list \<Rightarrow> int \<Rightarrow> world \<Rightarrow> (dres \<times> world) option" where
  "do_rename root req reqbufflen w =
     do {
       b \<leftarrow> rd req 0 (nat reqbufflen);
       let fn1len = int (unat (b ! 0));
       if reqbufflen > fn1len then do {
         let fn1 = rename_fn1 root b;
         let fn2 = rename_fn2 root b;
         (r, host_fn1) \<leftarrow> shorttolong (host_of w) fn1 root;
         if r \<noteq> 0 then Some (Ans 0 [], w)
         else do {
           (a, fp) \<leftarrow> getitemattr (host_of w) fn2 False 0;
           if a \<noteq> 0xff then Some (Ans 5 [], w)
           else (let (res, h) = renfile (host_of w) host_fn1 fn2
                 in Some (Ans (if res \<noteq> 0 then 5 else 0) [], w\<lparr>host_of := h\<rparr>))
         }
       }
       else Some (Ans 2 [], w)
     }"

text \<open>\<open>AL_DELETE\<close>.\<close>

definition do_delete :: "config \<Rightarrow> nat \<Rightarrow> string \<Rightarrow> byte list \<Rightarrow> int \<Rightarrow> world \<Rightarrow> (dres \<times> world) option" where
  "do_delete cfg reqdrv root req reqbufflen w =
     do {
       b \<leftarrow> rd req 0 (nat reqbufflen);
       let fullpathname = hostpath root b;
       (r, host_fullpathname) \<leftarrow> shorttolong (host_of w) fullpathname root;
       if r \<noteq> 0 then Some (Ans 2 [], w)
       else do {
         (a, fp) \<leftarrow> getitemattr (host_of w) host_fullpathname False (drivesfat cfg reqdrv);
         if a AND 1 \<noteq> 0 then Some (Ans 5 [], w)
         else do {
           (res, h) \<leftarrow> delfiles (host_of w) host_fullpathname;
           Some (Ans (if res < 0 then 2 else 0) [], w\<lparr>host_of := h\<rparr>)
         }
       }
     }"

text \<open>
  \<open>AL_OPEN\<close>, \<open>AL_CREATE\<close> and \<open>AL_SPOPNFIL\<close>. The middle of the branch sets
  \<open>fileres\<close>, \<open>fprops\<close>, \<open>spopres\<close> and \<open>resopenmode\<close>; \<open>FAT_VOL | FAT_DIR\<close> is \<open>0x18\<close>.
\<close>

definition open_action ::
  "nat \<Rightarrow> host \<Rightarrow> string \<Rightarrow> string \<Rightarrow> string \<Rightarrow> byte \<Rightarrow> nat \<Rightarrow> nat \<Rightarrow> nat \<Rightarrow>
   (int \<times> fileprops option \<times> nat \<times> byte \<times> host) option" where
  "open_action query h host_directory fname host_fullpathname fatflag stackattr actioncode spopen_openmode =
     (if query = 0x17 then
        map_option (\<lambda>(fileres, fp, h'). (fileres, fp, 0, 2, h'))
          (createfile h host_directory fname (of_nat stackattr) fatflag)
      else if query = 0x2E then
        do {
          (attr, fp) \<leftarrow> getitemattr h host_fullpathname True fatflag;
          let resopenmode = (of_nat spopen_openmode AND 0x7f :: byte);
          if attr = 0xff then
            (if (of_nat actioncode :: 16 word) AND 0xf0 = 16
             then map_option (\<lambda>(fileres, fp', h'). (fileres, (case fp' of None \<Rightarrow> fp | _ \<Rightarrow> fp'),
                                 if fileres = 0 then 2 else 0, resopenmode, h'))
                    (createfile h host_directory fname (of_nat stackattr) fatflag)
             else Some (1, fp, 0, resopenmode, h))
          else if attr AND 0x18 \<noteq> 0 then Some (1, fp, 0, resopenmode, h)
          else if (of_nat actioncode :: 16 word) AND 0x0f = 1 then Some (0, fp, 1, resopenmode, h)
          else if (of_nat actioncode :: 16 word) AND 0x0f = 2
          then map_option (\<lambda>(fileres, fp', h'). (fileres, (case fp' of None \<Rightarrow> fp | _ \<Rightarrow> fp'),
                              if fileres = 0 then 3 else 0, resopenmode, h'))
                 (createfile h host_directory fname (of_nat stackattr) fatflag)
          else Some (1, fp, 0, resopenmode, h)
        }
      else
        do {
          (attr, fp) \<leftarrow> getitemattr h host_fullpathname True fatflag;
          Some (if attr \<noteq> 0xff \<and> attr AND 0x18 = 0 then 0 else 1, fp, 0, of_nat stackattr, h)
        })"

definition do_open :: "config \<Rightarrow> nat \<Rightarrow> nat \<Rightarrow> string \<Rightarrow> byte list \<Rightarrow> int \<Rightarrow> world \<Rightarrow> (dres \<times> world) option" where
  "do_open cfg query reqdrv root req reqbufflen w =
     do {
       b \<leftarrow> rd req 0 6;
       let stackattr = le16 (take 2 b);
       let actioncode = le16 (take 2 (drop 2 b));
       let spopen_openmode = le16 (drop 4 b);
       p \<leftarrow> (if reqbufflen < 6 then None else rd req 6 (nat reqbufflen - 6));
       let fullpathname = hostpath root p;
       (dir, fname) \<leftarrow> explodepath (drop 6 req) (reqbufflen - 6);
       let directory = charreplace (root @ ''/'' @ map lochar (cstr dir));
       (r, host_directory) \<leftarrow> shorttolong (host_of w) directory root;
       let (res, h) = (if r \<noteq> 0 then (r, host_of w) else changedir (host_of w) host_directory);
       if r \<noteq> 0 \<or> res \<noteq> 0 then Some (Ans 3 [], w\<lparr>host_of := h\<rparr>)
       else do {
         (r2, long) \<leftarrow> shorttolong h fullpathname root;
         let fname = (if r2 = 0 then copy_after_last_slash (cstr fname) long else cstr fname);
         let host_fullpathname = (if r2 = 0 then long else host_directory @ ''/'' @ fname);
         fnamefcb \<leftarrow> filename2fcb fname;
         (fileres, fp, spopres, resopenmode, h') \<leftarrow>
           open_action query h host_directory fname host_fullpathname (drivesfat cfg reqdrv)
             stackattr actioncode spopen_openmode;
         if fileres \<noteq> 0 then Some (Ans 2 [], w\<lparr>host_of := h'\<rparr>)
         else (let (fileid, db) = getitemss (fsdb_of w) host_fullpathname (clock h') (mem_ok h')
               in if fileid = 0xffff then Some (Ret (-1), \<lparr>fsdb_of = db, host_of = h'\<rparr>)
                  else do {
                    fprops \<leftarrow> fp;
                    Some (Ans 0 (reply_entry fprops @ put16 fileid @ put16 spopres @ [resopenmode]),
                          \<lparr>fsdb_of = db, host_of = h'\<rparr>)
                  })
       }
     }"

text \<open>\<open>AL_SKFMEND\<close>, entered with \<open>reqbufflen == 6\<close>.\<close>

definition do_skfmend :: "byte list \<Rightarrow> world \<Rightarrow> (dres \<times> world) option" where
  "do_skfmend req w =
     do {
       b \<leftarrow> rd req 0 6;
       let offs = (of_nat (le32 (take 4 b)) :: 32 word);
       let fss = le16 (drop 4 b);
       let offs = (if sint offs > 0 then 0 else offs);
       fsize \<leftarrow> getfopsize (host_of w) (fsdb_of w) fss;
       Some (case fsize of
               None \<Rightarrow> (Ans 2 [], w)
             | Some sz \<Rightarrow>
                 (let offs = offs + sz;
                      offs = (if sint offs < 0 then 0 else offs)
                  in (Ans 0 (put32 offs), w)))
     }"

subsection \<open>\<open>process\<close>\<close>

text \<open>
  The chain of \<open>if\<close>/\<open>else if\<close> on \<open>query\<close>; \<open>req\<close> is the request buffer behind the
  60 bytes of header and \<open>reqbufflen\<close> the length of the request without them.
\<close>

definition dispatch ::
  "config \<Rightarrow> nat \<Rightarrow> nat \<Rightarrow> string \<Rightarrow> byte list \<Rightarrow> int \<Rightarrow> world \<Rightarrow> (dres \<times> world) option" where
  "dispatch cfg query reqdrv root req reqbufflen w =
     (if query = 0x0C then Some (do_diskspace root w)
      else if query = 0x08 \<and> reqbufflen = 8 then do_readfil req w
      else if query = 0x09 \<and> reqbufflen \<ge> 6 then do_writefil req reqbufflen w
      else if query = 0x0A \<or> query = 0x0B then Some (Ans 0 [], w)
      else if query = 0x1B then do_findfirst cfg reqdrv root req reqbufflen w
      else if query = 0x1C then do_findnext cfg reqdrv root req w
      else if query = 0x03 \<or> query = 0x01 then do_mkrmdir (query = 0x03) root req reqbufflen w
      else if query = 0x05 then do_chdir root req reqbufflen w
      else if query = 0x06 then Some (Ans 0 [], w)
      else if query = 0x0E \<and> reqbufflen > 1 then do_setattr cfg reqdrv root req reqbufflen w
      else if query = 0x0F \<and> reqbufflen > 0 then do_getattr cfg reqdrv root req reqbufflen w
      else if query = 0x11 \<and> reqbufflen > 2 then do_rename root req reqbufflen w
      else if query = 0x13 then do_delete cfg reqdrv root req reqbufflen w
      else if query = 0x16 \<or> query = 0x17 \<or> query = 0x2E
      then do_open cfg query reqdrv root req reqbufflen w
      else if query = 0x21 \<and> reqbufflen = 6 then do_skfmend req w
      else Some (Ret (-1), w))"

text \<open>
  \<open>process(answer, reqbuff, reqbufflen, mymac, rootarray)\<close>, on the state \<open>w\<close>: the
  return value, the frame of the cache entry and the new state. \<open>None\<close> is undefined
  behaviour: a read outside the request buffer, a write outside the frame, or one of
  the cases above.
\<close>

definition cache_hit :: "answcache \<Rightarrow> byte list \<Rightarrow> bool" where
  "cache_hit answer reqbuff =
     (frame answer ! 57 = reqbuff ! 57 \<and> take 6 (frame answer) = take 6 (drop 6 reqbuff)
      \<and> alen answer > 0)"

definition process ::
  "config \<Rightarrow> answcache \<Rightarrow> byte list \<Rightarrow> int \<Rightarrow> world \<Rightarrow> (int \<times> byte list \<times> world) option" where
  "process cfg answer reqbuff reqbufflen w =
     (if reqbufflen < 60 then Some (-1, frame answer, w)
      else if length reqbuff < 60 \<or> length (frame answer) < 60 then None
      else if cache_hit answer reqbuff then Some (int (alen answer), frame answer, w)
      else
        do {
          answ \<leftarrow> poke (frame answer) 0 (take 60 reqbuff);
          answ \<leftarrow> poke answ 0 (take 6 (drop 6 answ));
          answ \<leftarrow> poke answ 6 (take 6 (mymac cfg));
          let reqdrv = unat (reqbuff ! 58 AND 31);
          let query = unat (reqbuff ! 59);
          if reqdrv < 2 \<or> reqdrv > 25 then Some (-3, answ, w)
          else (case rootarray cfg reqdrv of
                  None \<Rightarrow> Some (-3, answ, w)
                | Some root \<Rightarrow>
                    do {
                      answ \<leftarrow> poke answ 58 (put16 0);
                      (res, w') \<leftarrow> dispatch cfg query reqdrv root (drop 60 reqbuff) (reqbufflen - 60) w;
                      (case res of
                         Ret r \<Rightarrow> Some (r, answ, w')
                       | Ans ax bs \<Rightarrow>
                           do {
                             answ \<leftarrow> poke answ 58 (put16 ax);
                             answ \<leftarrow> poke answ 60 bs;
                             Some (int (length bs) + 60, answ, w')
                           })
                    })
        })"

subsection \<open>One turn of the main loop\<close>

text \<open>\<open>bsdsum\<close>: \<open>res = (res << 15) | (res >> 1); res += *ptr\<close> on an \<open>unsigned short\<close>.\<close>

fun bsdsum :: "16 word \<Rightarrow> byte list \<Rightarrow> 16 word" where
  "bsdsum res [] = res"
| "bsdsum res (b # bs) = bsdsum ((push_bit 15 res OR drop_bit 1 res) + ucast b) bs"

text \<open>
  The server state: the 16 entries of the answer cache and the rest. One turn of the
  loop in \<open>main\<close> from \<open>findcacheentry\<close> on, for a frame \<open>buff\<close> of length \<open>len\<close> that has
  passed the checks in front of it, in two steps.

  \<open>main_process\<close>: the cache entry of the client is looked up, \<open>process\<close> runs on it,
  and \<open>len\<close> and \<open>timestamp\<close> of the entry are updated (\<open>cacheptr->len = len\<close> is a store
  into an \<open>unsigned short\<close>). The result is the index of the entry, the value of \<open>len\<close>
  and the new state.
\<close>

record server =
  answcache_of :: "answcache list"
  world_of :: world

definition main_process :: "config \<Rightarrow> byte list \<Rightarrow> int \<Rightarrow> server \<Rightarrow> (nat \<times> int \<times> server) option" where
  "main_process cfg buff len0 s =
     (if length buff < 12 then None
      else do {
        let i = findcacheentry (answcache_of s) (take 6 (drop 6 buff));
        let cacheptr = answcache_of s ! i;
        (len, fr, w) \<leftarrow> process cfg cacheptr buff len0 (world_of s);
        let entry = (if len \<ge> 0
                     then cacheptr\<lparr>frame := fr, alen := nat len mod 65536, timestamp := clock (host_of w)\<rparr>
                     else cacheptr\<lparr>frame := fr, alen := 0\<rparr>);
        Some (i, len, \<lparr>answcache_of = (answcache_of s)[i := entry], world_of = w\<rparr>)
      })"

text \<open>
  \<open>main_send\<close>: for \<open>len > 0\<close> the length and checksum fields of the frame are filled in
  and the first \<open>len\<close> bytes are sent; otherwise the query is ignored. The result is the
  frame sent (\<open>None\<close>: nothing is sent) and the new state.
\<close>

definition main_send :: "byte \<Rightarrow> nat \<Rightarrow> int \<Rightarrow> server \<Rightarrow> (byte list option \<times> server) option" where
  "main_send cksumflag i len s =
     (if len > 0 then do {
        let fr = frame (answcache_of s ! i);
        fr \<leftarrow> poke fr 52 (put16 (nat len));
        fr \<leftarrow> (if cksumflag \<noteq> 0
               then do {
                 body \<leftarrow> rd fr 56 (nat len - 56);
                 fr \<leftarrow> poke fr 54 (put16 (unat (bsdsum 0 body)));
                 poke fr 56 [fr ! 56 OR 128]
               }
               else do {
                 fr \<leftarrow> poke fr 54 [0, 0];
                 poke fr 56 [fr ! 56 AND 127]
               });
        sent \<leftarrow> rd fr 0 (nat len);
        Some (Some sent, s\<lparr>answcache_of := (answcache_of s)[i := (answcache_of s ! i)\<lparr>frame := fr\<rparr>]\<rparr>)
      }
      else Some (None, s))"

definition main_turn :: "config \<Rightarrow> byte list \<Rightarrow> int \<Rightarrow> server \<Rightarrow> (byte list option \<times> server) option" where
  "main_turn cfg buff len0 s =
     (if length buff < 60 then None
      else do {
        (i, len, s') \<leftarrow> main_process cfg buff len0 s;
        main_send (drop_bit 7 (buff ! 56)) i len s'
      })"

section \<open>Auxiliary notions for the statements\<close>

text \<open>
  The passive aging of \<open>getitemss\<close>: a slot the scan passes without a match is zeroed
  when its last use is more than 3600 seconds back. \<open>aged now db i\<close> is the cache after
  one loop body at index \<open>i\<close> without a match, \<open>aged_below now db i m\<close> the cache after
  the scan has passed the slots from \<open>i\<close> up to \<open>m\<close>.
\<close>

definition aged :: "int \<Rightarrow> fsdb \<Rightarrow> nat \<Rightarrow> fsdb" where
  "aged now db i = (if now - lastused (db i) > 3600 then db(i := zero_slot) else db)"

definition aged_below :: "int \<Rightarrow> fsdb \<Rightarrow> nat \<Rightarrow> nat \<Rightarrow> fsdb" where
  "aged_below now db i m = (\<lambda>j. if i \<le> j \<and> j < m \<and> now - lastused (db j) > 3600 then zero_slot else db j)"

text \<open>
  The first 58 bytes of an answer that \<open>process\<close> builds: the requester's address, the
  server's own, and the bytes 12 to 57 of the request.
\<close>

definition reply_header :: "config \<Rightarrow> byte list \<Rightarrow> byte list" where
  "reply_header cfg reqbuff = take 6 (drop 6 reqbuff) @ take 6 (mymac cfg) @ take 46 (drop 12 reqbuff)"

text \<open>
  The invariant of the answer cache: in front of an entry that holds an answer
  (\<open>len > 0\<close>) no entry has the same client address. It holds for the zeroed cache and
  every turn of the main loop keeps it, so that \<open>findcacheentry\<close> finds the entry that
  holds the answer to a client.
\<close>

definition cache_inv :: "answcache list \<Rightarrow> bool" where
  "cache_inv c = (\<forall>j<ANSWCACHESZ. \<forall>k<j. 0 < alen (c ! j) \<longrightarrow>
                    take 6 (frame (c ! k)) \<noteq> take 6 (frame (c ! j)))"

section \<open>A small server, for the examples\<close>

text \<open>
  Drive C: is \<open>/srv\<close>, which holds the directory \<open>Sub\<close> (with the file \<open>b.txt\<close>) and
  the file \<open>a.txt\<close>; the file system is not FAT, has 1 GiB and 256 MiB free. The server's
  interface is \<open>02:00:00:00:00:09\<close>, the client's \<open>02:00:00:00:00:01\<close>.
\<close>

definition ex_tm :: tm where
  "ex_tm = \<lparr>tm_year = 125, tm_mon = 2, tm_mday = 24, tm_hour = 12, tm_min = 30, tm_sec = 10\<rparr>"

definition ex_dir :: hnode where
  "ex_dir = \<lparr>d_type = DT_DIR, st_mtime = ex_tm, content = [], fat_attr = None\<rparr>"

definition ex_file :: "byte list \<Rightarrow> hnode" where
  "ex_file bs = \<lparr>d_type = DT_REG, st_mtime = ex_tm, content = bs, fat_attr = None\<rparr>"

definition ex_host :: host where
  "ex_host =
     \<lparr>fs = [([], ex_dir), ([''srv''], ex_dir), ([''srv'', ''Sub''], ex_dir),
             ([''srv'', ''a.txt''], ex_file [1, 2, 3]), ([''srv'', ''Sub'', ''b.txt''], ex_file [4, 5])],
      cwd = ''/'',
      vfs = Some \<lparr>f_blocks = 262144, f_frsize = 4096, f_bfree = 65536, f_bsize = 4096\<rparr>,
      mem_ok = True, clock = 1700000000, clock_tm = ex_tm, junk = 0\<rparr>"

definition ex_cfg :: config where
  "ex_cfg = \<lparr>mymac = [0x02, 0, 0, 0, 0, 0x09],
             rootarray = (\<lambda>i. if i = 2 then Some ''/srv'' else None),
             drivesfat = (\<lambda>i. 0)\<rparr>"

definition ex_world :: world where
  "ex_world = \<lparr>fsdb_of = fsdb_init, host_of = ex_host\<rparr>"

definition ex_answer :: answcache where
  "ex_answer = \<lparr>frame = replicate 1520 0, timestamp = 0, alen = 0\<rparr>"

definition ex_server :: server where
  "ex_server = \<lparr>answcache_of = replicate ANSWCACHESZ ex_answer, world_of = ex_world\<rparr>"

text \<open>
  The 60 bytes in front of the payload of a request to drive C: (byte 58 is 2), with
  protocol version 2, no checksum, and the given sequence byte and subfunction.
\<close>

definition ex_request :: "byte \<Rightarrow> byte \<Rightarrow> byte list" where
  "ex_request seq al =
     [0x02, 0, 0, 0, 0, 0x09,  0x02, 0, 0, 0, 0, 0x01,  0xED, 0xF5,
      0, 0, 0, 0, 0, 0, 0, 0, 0, 0, 0, 0, 0, 0, 0, 0, 0, 0, 0,
      0, 0, 0, 0, 0, 0, 0, 0, 0, 0, 0, 0, 0, 0, 0, 0, 0, 0, 0,
      0, 0,  0, 0,  0x02, seq, 0x02, al]"


section \<open>Properties of the FCB names\<close>










lemma dotrun_take: "take (dotrun n s) s = replicate (dotrun n s) CHR ''.''"
  by (induction n s rule: dotrun.induct) auto

lemma dotrun_stop: "dotrun n s < n \<Longrightarrow> drop (dotrun n s) s = [] \<or> hd (drop (dotrun n s) s) \<noteq> CHR ''.''"
  by (induction n s rule: dotrun.induct) auto










section \<open>Properties of \<open>findfile\<close>\<close>

lemma byte_bit_cases:
  "bit (w :: byte) n \<Longrightarrow> n = 0 \<or> n = 1 \<or> n = 2 \<or> n = 3 \<or> n = 4 \<or> n = 5 \<or> n = 6 \<or> n = 7"
proof -
  assume "bit w n"
  then have "n < 8" by (auto dest: bit_imp_le_length)
  then show ?thesis by arith
qed

lemma bit_0x16: "bit (0x16 :: byte) n \<longleftrightarrow> n = 1 \<or> n = 2 \<or> n = 4"
proof
  assume b: "bit (0x16 :: byte) n"
  from byte_bit_cases [OF b] b show "n = 1 \<or> n = 2 \<or> n = 4"
    by (auto simp: bit_iff_odd_drop_bit)
next
  assume "n = 1 \<or> n = 2 \<or> n = 4"
  then show "bit (0x16 :: byte) n" by (auto simp: bit_iff_odd_drop_bit)
qed

lemma bit_0x21: "bit (0x21 :: byte) n \<longleftrightarrow> n = 0 \<or> n = 5"
proof
  assume b: "bit (0x21 :: byte) n"
  from byte_bit_cases [OF b] b show "n = 0 \<or> n = 5"
    by (auto simp: bit_iff_odd_drop_bit)
next
  assume "n = 0 \<or> n = 5"
  then show "bit (0x21 :: byte) n" by (auto simp: bit_iff_odd_drop_bit)
qed

lemma admits_bits:
  "(attr OR (fa AND 0x16)) = attr \<longleftrightarrow> (\<forall>b \<in> {1, 2, 4}. bit fa b \<longrightarrow> bit attr b)"
  for attr fa :: byte
proof
  assume eq: "(attr OR (fa AND 0x16)) = attr"
  show "\<forall>b \<in> {1, 2, 4}. bit fa b \<longrightarrow> bit attr b"
  proof (intro ballI impI)
    fix b :: nat assume b: "b \<in> {1, 2, 4}" and fb: "bit fa b"
    then have "bit (attr OR (fa AND 0x16)) b" by (auto simp: bit_or_iff bit_and_iff bit_0x16)
    with eq show "bit attr b" by simp
  qed
next
  assume a: "\<forall>b \<in> {1, 2, 4}. bit fa b \<longrightarrow> bit attr b"
  show "(attr OR (fa AND 0x16)) = attr"
  proof (rule bit_eqI)
    fix n
    show "bit (attr OR (fa AND 0x16)) n \<longleftrightarrow> bit attr n"
      using a by (auto simp: bit_or_iff bit_and_iff bit_0x16 simp del: bit_numeral_word_iff)
  qed
qed

lemma admits_ro_arch:
  "(attr OR ((fa OR 0x21) AND 0x16)) = (attr OR (fa AND 0x16))" for attr fa :: byte
proof (rule bit_eqI)
  fix n
  show "bit (attr OR ((fa OR 0x21) AND 0x16)) n \<longleftrightarrow> bit (attr OR (fa AND 0x16)) n"
    by (auto simp: bit_or_iff bit_and_iff bit_0x16 bit_0x21 simp del: bit_numeral_word_iff)
qed


lemma bit3_0x08: "fa AND 0x08 = 0 \<longleftrightarrow> \<not> bit fa 3" for fa :: byte
  by (simp add: and_exp_eq_0_iff_not_bit [of fa 3, simplified])

text \<open>
  Claim C4. An entry that the loop of \<open>findfile\<close> considers (one behind the start
  position, not skipped as a dot entry of the root, matching the FCB mask) is returned
  exactly when the attribute test admits it. With the mask \<open>0x08\<close> the test asks for the
  VOLUME bit (bit 3) of the entry. With any other mask the test is
  \<open>(attr | (fattr & 0x16)) == attr\<close>: each of the bits 1, 2 and 4 of the entry must be
  set in the mask, and the RO and ARCHIVE bits (\<open>0x21\<close>) of the entry make no difference.
\<close>

theorem findfile_attr_filter:
  assumes "pos < n + 1" and "\<not> (hd (fcbname e) = CHR ''.'' \<and> r)"
    and "matchfile2mask tmpl (fcbname e)"
  shows "findfile_loop tmpl attr pos r n (e # es) =
           (if attr_admits attr (fattr e) then Some (n + 1, e)
            else findfile_loop tmpl attr pos r (n + 1) es)
         \<and> (attr = 0x08 \<longrightarrow> (attr_admits attr (fattr e) \<longleftrightarrow> bit (fattr e) 3))
         \<and> (attr \<noteq> 0x08 \<longrightarrow>
              (attr_admits attr (fattr e) \<longleftrightarrow> (attr OR (fattr e AND 0x16)) = attr)
            \<and> (attr_admits attr (fattr e) \<longleftrightarrow> (\<forall>b \<in> {1, 2, 4}. bit (fattr e) b \<longrightarrow> bit attr b))
            \<and> (attr_admits attr (fattr e OR 0x21) \<longleftrightarrow> attr_admits attr (fattr e)))"
proof (intro conjI impI)
  show "findfile_loop tmpl attr pos r n (e # es) =
           (if attr_admits attr (fattr e) then Some (n + 1, e)
            else findfile_loop tmpl attr pos r (n + 1) es)"
    using assms by (auto simp: Let_def)
  show "attr = 0x08 \<Longrightarrow> attr_admits attr (fattr e) \<longleftrightarrow> bit (fattr e) 3"
    by (simp add: attr_admits_def bit3_0x08)
  show "attr \<noteq> 0x08 \<Longrightarrow>
           attr_admits attr (fattr e) \<longleftrightarrow> (attr OR (fattr e AND 0x16)) = attr"
    by (simp add: attr_admits_def)
  show "attr \<noteq> 0x08 \<Longrightarrow>
           attr_admits attr (fattr e) \<longleftrightarrow> (\<forall>b \<in> {1, 2, 4}. bit (fattr e) b \<longrightarrow> bit attr b)"
    by (simp only: attr_admits_def admits_bits if_False not_not)
  show "attr \<noteq> 0x08 \<Longrightarrow>
           attr_admits attr (fattr e OR 0x21) \<longleftrightarrow> attr_admits attr (fattr e)"
    by (simp only: attr_admits_def admits_ro_arch if_False)
qed


lemma match_all_example: "matchfile2mask ''???????????'' ''SUB        ''"
  by code_simp

text \<open>
  The theorem at a read-only directory \<open>SUB\<close> (attributes \<open>0x11\<close>): the mask \<open>0x10\<close>
  admits it, the masks \<open>0x00\<close> and \<open>0x08\<close> do not.
\<close>

theorem findfile_attr_filter_witness:
  "(0::nat) < 0 + 1 \<and>
   \<not> (hd (fcbname \<lparr>fattr = 0x11, fsize = 0, ftime = 0, fcbname = ''SUB        ''\<rparr>) = CHR ''.'' \<and> True) \<and>
   matchfile2mask ''???????????'' (fcbname \<lparr>fattr = 0x11, fsize = 0, ftime = 0, fcbname = ''SUB        ''\<rparr>) \<and>
   findfile_loop ''???????????'' 0x10 0 True 0
     [\<lparr>fattr = 0x11, fsize = 0, ftime = 0, fcbname = ''SUB        ''\<rparr>] =
     Some (1, \<lparr>fattr = 0x11, fsize = 0, ftime = 0, fcbname = ''SUB        ''\<rparr>) \<and>
   attr_admits 0x10 0x11 \<and> \<not> attr_admits 0x00 0x11 \<and> \<not> attr_admits 0x08 0x11"
proof -
  let ?e = "\<lparr>fattr = 0x11, fsize = 0, ftime = 0, fcbname = ''SUB        ''\<rparr>"
  have h1: "(0::nat) < 0 + 1" by simp
  have h2: "\<not> (hd (fcbname ?e) = CHR ''.'' \<and> True)" by simp
  have h3: "matchfile2mask ''???????????'' (fcbname ?e)" using match_all_example by simp
  have a: "attr_admits 0x10 0x11" "\<not> attr_admits 0x00 0x11" "\<not> attr_admits 0x08 0x11"
    by (simp_all add: attr_admits_def)
  from findfile_attr_filter [OF h1 h2 h3, of "0x10" "[]"] a h1 h2 h3
  show ?thesis by simp
qed

section \<open>Properties of the file cache\<close>

declare getitemss_loop.simps [simp del]



lemma getitemss_loop_end: "\<not> i < 0xffff \<Longrightarrow> getitemss_loop f now i ff old db = (Inr (ff, old), db)"
  by (subst getitemss_loop.simps) simp

lemma getitemss_loop_hit:
  "i < 0xffff \<Longrightarrow> name (db i) = Some f \<Longrightarrow>
   getitemss_loop f now i ff old db = (Inl i, db(i := (db i)\<lparr>lastused := now\<rparr>))"
  by (subst getitemss_loop.simps) simp

lemma getitemss_loop_step:
  assumes "i < 0xffff" "name (db i) \<noteq> Some f"
  shows "\<exists>ff' old'. getitemss_loop f now i ff old db = getitemss_loop f now (i + 1) ff' old' (aged now db i)
     \<and> (if ff = 0xffff \<and> name (aged now db i i) = None then ff' = i else ff' = ff)
     \<and> (old' = old \<or> old' = i)"
  using assms by (subst getitemss_loop.simps) (auto simp: Let_def aged_def)

lemma aged_name: "name (db j) \<noteq> Some f \<Longrightarrow> name (aged now db i j) \<noteq> Some f"
  by (simp add: aged_def zero_slot_def)

lemma aged_other: "j \<noteq> i \<Longrightarrow> aged now db i j = db j"
  by (simp add: aged_def)

lemma getitemss_loop_Inl:
  "0xffff - i = k \<Longrightarrow> getitemss_loop f now i ff old db = (Inl m, db') \<Longrightarrow>
   i \<le> m \<and> m < 0xffff \<and> name (db' m) = Some f \<and>
   (\<forall>j. i \<le> j \<and> j < m \<longrightarrow> name (db' j) \<noteq> Some f) \<and> (\<forall>j<i. db' j = db j)"
proof (induction k arbitrary: i ff old db)
  case 0
  then have "\<not> i < 0xffff" by simp
  from getitemss_loop_end [OF this] "0.prems"(2) show ?case by simp
next
  case (Suc k)
  then have lt: "i < 0xffff" by simp
  show ?case
  proof (cases "name (db i) = Some f")
    case True
    from getitemss_loop_hit [where i=i and db=db and f=f and now=now and ff=ff and old=old, OF lt True] Suc.prems(2) lt True show ?thesis by auto
  next
    case False
    from getitemss_loop_step [where i=i and db=db and f=f and now=now and ff=ff and old=old, OF lt False] Suc.prems(2) obtain ff' old' where
      rec: "getitemss_loop f now (i + 1) ff' old' (aged now db i) = (Inl m, db')" by auto
    have k: "0xffff - (i + 1) = k" using Suc.prems(1) by simp
    from Suc.IH [OF k rec]
    have ih: "i + 1 \<le> m" "m < 0xffff" "name (db' m) = Some f"
      "\<forall>j. i + 1 \<le> j \<and> j < m \<longrightarrow> name (db' j) \<noteq> Some f" "\<forall>j<i + 1. db' j = aged now db i j"
      by auto
    have ni: "name (db' i) \<noteq> Some f" using ih(5) aged_name [where db=db and j=i and f=f and now=now and i=i, OF False] by simp
    have below: "\<forall>j<i. db' j = db j" using ih(5) by (simp add: aged_other)
    have "name (db' j) \<noteq> Some f" if "i \<le> j" "j < m" for j
    proof (cases "j = i")
      case True
      with ni show ?thesis by simp
    next
      case False
      with that have "i + 1 \<le> j" by simp
      with ih(4) that show ?thesis by blast
    qed
    with below ih(1,2,3) show ?thesis by auto
  qed
qed

lemma getitemss_loop_Inr:
  "0xffff - i = k \<Longrightarrow> getitemss_loop f now i ff old db = (Inr (ff', old'), db') \<Longrightarrow>
   (\<forall>j. i \<le> j \<and> j < 0xffff \<longrightarrow> name (db' j) \<noteq> Some f) \<and> (\<forall>j<i. db' j = db j) \<and>
   (ff' = ff \<or> (ff = 0xffff \<and> i \<le> ff' \<and> ff' < 0xffff)) \<and> (old' = old \<or> (i \<le> old' \<and> old' < 0xffff))"
proof (induction k arbitrary: i ff old db)
  case 0
  then have "\<not> i < 0xffff" by simp
  from getitemss_loop_end [OF this] "0.prems"(2) this show ?case by auto
next
  case (Suc k)
  then have lt: "i < 0xffff" by simp
  show ?case
  proof (cases "name (db i) = Some f")
    case True
    from getitemss_loop_hit [where i=i and db=db and f=f and now=now and ff=ff and old=old, OF lt True] Suc.prems(2) lt True show ?thesis by auto
  next
    case False
    from getitemss_loop_step [where i=i and db=db and f=f and now=now and ff=ff and old=old, OF lt False] Suc.prems(2) obtain ff1 old1 where
      rec: "getitemss_loop f now (i + 1) ff1 old1 (aged now db i) = (Inr (ff', old'), db')"
      and f1: "ff1 = ff \<or> (ff = 0xffff \<and> ff1 = i)" and o1: "old1 = old \<or> old1 = i"
      by (auto split: if_splits)
    have k: "0xffff - (i + 1) = k" using Suc.prems(1) by simp
    from Suc.IH [OF k rec]
    have ih: "\<forall>j. i + 1 \<le> j \<and> j < 0xffff \<longrightarrow> name (db' j) \<noteq> Some f" "\<forall>j<i + 1. db' j = aged now db i j"
      "ff' = ff1 \<or> (ff1 = 0xffff \<and> i + 1 \<le> ff' \<and> ff' < 0xffff)"
      "old' = old1 \<or> (i + 1 \<le> old' \<and> old' < 0xffff)"
      by auto
    have ni: "name (db' i) \<noteq> Some f" using ih(2) aged_name [where db=db and j=i and f=f and now=now and i=i, OF False] by simp
    have below: "\<forall>j<i. db' j = db j" using ih(2) by (simp add: aged_other)
    have all: "name (db' j) \<noteq> Some f" if "i \<le> j" "j < 0xffff" for j
    proof (cases "j = i")
      case True
      with ni show ?thesis by simp
    next
      case False
      with that have "i + 1 \<le> j" by simp
      with ih(1) that show ?thesis by blast
    qed
    have "ff' = ff \<or> (ff = 0xffff \<and> i \<le> ff' \<and> ff' < 0xffff)"
      using ih(3) f1 lt by auto
    moreover have "old' = old \<or> (i \<le> old' \<and> old' < 0xffff)"
      using ih(4) o1 lt by auto
    ultimately show ?thesis using all below by blast
  qed
qed

lemma getitemss_loop_found:
  "m - i = k \<Longrightarrow> i \<le> m \<Longrightarrow> m < 0xffff \<Longrightarrow> name (db m) = Some f \<Longrightarrow>
   (\<forall>j. i \<le> j \<and> j < m \<longrightarrow> name (db j) \<noteq> Some f) \<Longrightarrow>
   getitemss_loop f now i ff old db = (Inl m, (aged_below now db i m)(m := (db m)\<lparr>lastused := now\<rparr>))"
proof (induction k arbitrary: i ff old db)
  case 0
  then have "i = m" by simp
  with getitemss_loop_hit [of m db f now ff old] "0.prems" show ?case
    by (auto simp: aged_below_def fun_eq_iff)
next
  case (Suc k)
  then have lt: "i < 0xffff" and im: "i < m" by simp_all
  from Suc.prems im have nf: "name (db i) \<noteq> Some f" by simp
  from getitemss_loop_step [where i=i and db=db and f=f and now=now and ff=ff and old=old, OF lt nf] obtain ff1 old1 where
    st: "getitemss_loop f now i ff old db = getitemss_loop f now (i + 1) ff1 old1 (aged now db i)" by auto
  have a: "m - (i + 1) = k" "i + 1 \<le> m" using Suc.prems(1) im by simp_all
  have b: "name (aged now db i m) = Some f" using Suc.prems(4) im by (simp add: aged_other)
  have c: "\<forall>j. i + 1 \<le> j \<and> j < m \<longrightarrow> name (aged now db i j) \<noteq> Some f"
    using Suc.prems(5) by (auto simp: aged_def zero_slot_def)
  have e: "(aged_below now (aged now db i) (i + 1) m)(m := (aged now db i m)\<lparr>lastused := now\<rparr>)
     = (aged_below now db i m)(m := (db m)\<lparr>lastused := now\<rparr>)"
  proof (rule ext)
    fix x
    show "((aged_below now (aged now db i) (i + 1) m)(m := (aged now db i m)\<lparr>lastused := now\<rparr>)) x
     = ((aged_below now db i m)(m := (db m)\<lparr>lastused := now\<rparr>)) x"
      using im by (cases "x = i") (auto simp: aged_below_def aged_def)
  qed
  note st
  also have "getitemss_loop f now (i + 1) ff1 old1 (aged now db i) =
      (Inl m, (aged_below now (aged now db i) (i + 1) m)(m := (aged now db i m)\<lparr>lastused := now\<rparr>))"
    by (rule Suc.IH [OF a Suc.prems(3) b c])
  also have "\<dots> = (Inl m, (aged_below now db i m)(m := (db m)\<lparr>lastused := now\<rparr>))"
    by (simp only: e)
  finally show ?case .
qed


lemma getitemss_loop_zero:
  "0xffff - i = k \<Longrightarrow> (\<forall>j. i \<le> j \<longrightarrow> db j = zero_slot) \<Longrightarrow> ff \<noteq> 0xffff \<Longrightarrow>
   \<exists>old'. getitemss_loop f now i ff old db = (Inr (ff, old'), db)"
proof (induction k arbitrary: i old)
  case 0
  then have "\<not> i < 0xffff" by simp
  from getitemss_loop_end [OF this] show ?case by simp
next
  case (Suc k)
  then have lt: "i < 0xffff" by simp
  have z: "db i = zero_slot" using Suc.prems(2) by simp
  then have nf: "name (db i) \<noteq> Some f" by (simp add: zero_slot_def)
  have ag: "aged now db i = db" using z by (auto simp: aged_def fun_eq_iff)
  from getitemss_loop_step [where i=i and db=db and f=f and now=now and ff=ff and old=old, OF lt nf]
  obtain old1 where st: "getitemss_loop f now i ff old db = getitemss_loop f now (i + 1) ff old1 db"
    using Suc.prems(3) by (auto simp: ag)
  have "0xffff - (i + 1) = k" "\<forall>j. i + 1 \<le> j \<longrightarrow> db j = zero_slot"
    using Suc.prems by simp_all
  from Suc.IH [OF this Suc.prems(3), of old1] st show ?case by simp
qed

lemma getitemss_init:
  "getitemss fsdb_init f now True = (0, fsdb_init(0 := \<lparr>name = Some f, lastused = now, dirlist = DNull\<rparr>))"
proof -
  have lt: "(0::nat) < 0xffff" by simp
  have nf: "name (fsdb_init 0) \<noteq> Some f" by (simp add: fsdb_init_def zero_slot_def)
  have ag: "aged now fsdb_init 0 = fsdb_init" by (auto simp: aged_def fun_eq_iff fsdb_init_def)
  have z: "name (fsdb_init 0) = None" by (simp add: fsdb_init_def zero_slot_def)
  from getitemss_loop_step [where i=0 and db=fsdb_init and f=f and now=now and ff="0xffff" and old=0, OF lt nf]
  obtain old1 where st: "getitemss_loop f now 0 0xffff 0 fsdb_init = getitemss_loop f now (0 + 1) 0 old1 fsdb_init"
    by (auto simp: ag z)
  have "\<exists>old'. getitemss_loop f now (0 + 1) 0 old1 fsdb_init = (Inr (0, old'), fsdb_init)"
    by (rule getitemss_loop_zero [OF refl]) (simp_all add: fsdb_init_def)
  with st obtain old' where "getitemss_loop f now 0 0xffff 0 fsdb_init = (Inr (0, old'), fsdb_init)"
    by auto
  then show ?thesis by (simp add: getitemss_def fsdb_init_def zero_slot_def)
qed

text \<open>
  Claim C3. After a call of \<open>getitemss\<close> that interned the path \<open>P\<close> (\<open>strdup\<close> did
  not fail), the identifier is a valid one (not \<open>0xffff\<close>), \<open>sstoitem\<close> on it gives \<open>P\<close>,
  and the next call of \<open>getitemss\<close> with \<open>P\<close>, at whatever time \<open>t2\<close> and whether or not
  memory is left, returns the same identifier: it names no new slot, it only refreshes
  \<open>lastused\<close> of that slot and zeroes the aged slots in front of it. \<open>sstoitem\<close> still
  gives \<open>P\<close> afterwards. The second call is not bound to the 3600 seconds: the scan
  compares the name of a slot before it looks at its age.
\<close>

theorem getitemss_again:
  assumes first: "getitemss db P t1 True = (ss, db1)"
  shows "ss < 0xffff \<and> sstoitem db1 ss = Some P \<and>
         getitemss db1 P t2 mem =
           (ss, (\<lambda>j. if j < ss \<and> t2 - lastused (db1 j) > 3600 then zero_slot else db1 j)
                  (ss := (db1 ss)\<lparr>lastused := t2\<rparr>)) \<and>
         sstoitem (snd (getitemss db1 P t2 mem)) ss = Some P"
proof -
  have key: "ss < 0xffff \<and> name (db1 ss) = Some P \<and> (\<forall>j. j < ss \<longrightarrow> name (db1 j) \<noteq> Some P)"
  proof (cases "getitemss_loop P t1 0 0xffff 0 db")
    case (Pair r db')
    show ?thesis
    proof (cases r)
      case (Inl m)
      with Pair first have "ss = m" "db1 = db'" by (simp_all add: getitemss_def)
      with getitemss_loop_Inl [OF refl, of P t1 0 "0xffff" 0 db m db'] Pair Inl show ?thesis by auto
    next
      case (Inr p)
      obtain ff old where p: "p = (ff, old)" by (cases p)
      from getitemss_loop_Inr [OF refl, of P t1 0 "0xffff" 0 db ff old db'] Pair Inr p
      have np: "\<forall>j<0xffff. name (db' j) \<noteq> Some P" and ff: "ff = 0xffff \<or> ff < 0xffff"
        and old: "old < 0xffff" by auto
      define slot where "slot = (if ff = 0xffff then old else ff)"
      define db2 where "db2 = (if ff = 0xffff then db'(old := zero_slot) else db')"
      have sl: "slot < 0xffff" using ff old by (auto simp: slot_def)
      have np2: "\<forall>j<0xffff. name (db2 j) \<noteq> Some P" using np by (auto simp: db2_def zero_slot_def)
      from first Pair Inr p have "ss = slot" "db1 = db2(slot := (db2 slot)\<lparr>name := Some P, lastused := t1\<rparr>)"
        by (auto simp: getitemss_def slot_def db2_def Let_def split: if_splits)
      with sl np2 show ?thesis by auto
    qed
  qed
  then have ss: "ss < 0xffff" and nm: "name (db1 ss) = Some P" and nb: "\<forall>j. 0 \<le> j \<and> j < ss \<longrightarrow> name (db1 j) \<noteq> Some P"
    by auto
  have "getitemss_loop P t2 0 0xffff 0 db1 = (Inl ss, (aged_below t2 db1 0 ss)(ss := (db1 ss)\<lparr>lastused := t2\<rparr>))"
    by (rule getitemss_loop_found [OF refl _ ss nm nb]) simp
  then have second: "getitemss db1 P t2 mem =
           (ss, (\<lambda>j. if j < ss \<and> t2 - lastused (db1 j) > 3600 then zero_slot else db1 j)
                  (ss := (db1 ss)\<lparr>lastused := t2\<rparr>))"
    by (simp add: getitemss_def aged_below_def)
  show ?thesis using ss nm second by (simp add: sstoitem_def)
qed


text \<open>The theorem on the empty cache: the path gets slot 0 and keeps it.\<close>

theorem getitemss_again_witness:
  "getitemss fsdb_init ''/srv/Sub'' 1700000000 True =
     (0, fsdb_init(0 := \<lparr>name = Some ''/srv/Sub'', lastused = 1700000000, dirlist = DNull\<rparr>)) \<and>
   getitemss (fsdb_init(0 := \<lparr>name = Some ''/srv/Sub'', lastused = 1700000000, dirlist = DNull\<rparr>))
     ''/srv/Sub'' 1700000100 True =
     (0, fsdb_init(0 := \<lparr>name = Some ''/srv/Sub'', lastused = 1700000100, dirlist = DNull\<rparr>)) \<and>
   sstoitem (fsdb_init(0 := \<lparr>name = Some ''/srv/Sub'', lastused = 1700000000, dirlist = DNull\<rparr>)) 0
     = Some ''/srv/Sub''"
proof -
  let ?D = "fsdb_init(0 := \<lparr>name = Some ''/srv/Sub'', lastused = 1700000000, dirlist = DNull\<rparr>)"
  have h: "getitemss fsdb_init ''/srv/Sub'' 1700000000 True = (0, ?D)"
    by (rule getitemss_init)
  have e: "(\<lambda>j. if j < (0::nat) \<and> 1700000100 - lastused (?D j) > 3600 then zero_slot else ?D j)
             (0 := (?D 0)\<lparr>lastused := 1700000100\<rparr>)
           = fsdb_init(0 := \<lparr>name = Some ''/srv/Sub'', lastused = 1700000100, dirlist = DNull\<rparr>)"
    by (auto simp: fun_eq_iff)
  from getitemss_again [OF h, of 1700000100 True] h e show ?thesis by simp
qed

section \<open>Properties of the dispatcher\<close>

subsection \<open>The header of an answer\<close>

lemma length_reply_header:
  "60 \<le> length reqbuff \<Longrightarrow> length (mymac cfg) = 6 \<Longrightarrow> length (reply_header cfg reqbuff) = 58"
  by (simp add: reply_header_def)

lemma poke_Some: "off + length bs \<le> length buf \<Longrightarrow> poke buf off bs = Some (take off buf @ bs @ drop (off + length bs) buf)"
  by (simp add: poke_def)

lemma length_put16 [simp]: "length (put16 n) = 2"
  by (simp add: put16_def)


lemma header_poke1:
  "60 \<le> length reqbuff \<Longrightarrow> 60 \<le> length F \<Longrightarrow>
   poke F 0 (take 60 reqbuff) = Some (take 60 reqbuff @ drop 60 F)"
  by (simp add: poke_def)

lemma header_poke2:
  "60 \<le> length reqbuff \<Longrightarrow> 60 \<le> length F \<Longrightarrow>
   poke (take 60 reqbuff @ drop 60 F) 0 (take 6 (drop 6 (take 60 reqbuff @ drop 60 F)))
      = Some (take 6 (drop 6 reqbuff) @ take 54 (drop 6 reqbuff) @ drop 60 F)"
  by (simp add: poke_def drop_take)

lemma header_poke3:
  assumes "60 \<le> length reqbuff" "60 \<le> length F" "length (mymac cfg) = 6"
  shows "poke (take 6 (drop 6 reqbuff) @ take 54 (drop 6 reqbuff) @ drop 60 F) 6 (take 6 (mymac cfg))
      = Some (reply_header cfg reqbuff @ take 2 (drop 58 reqbuff) @ drop 60 F)"
proof -
  have s: "take 48 (drop 12 reqbuff) = take 46 (drop 12 reqbuff) @ take 2 (drop 58 reqbuff)"
    using take_add [of 46 2 "drop 12 reqbuff"] by (simp add: add.commute)
  have "poke (take 6 (drop 6 reqbuff) @ take 54 (drop 6 reqbuff) @ drop 60 F) 6 (take 6 (mymac cfg))
      = Some (take 6 (drop 6 reqbuff) @ take 6 (mymac cfg) @ take 48 (drop 12 reqbuff) @ drop 60 F)"
    using assms by (simp add: poke_def drop_take)
  then show ?thesis by (simp only: s reply_header_def append_assoc)
qed

lemma header_poke4:
  assumes "60 \<le> length reqbuff" "60 \<le> length F" "length (mymac cfg) = 6"
  shows "poke (reply_header cfg reqbuff @ take 2 (drop 58 reqbuff) @ drop 60 F) 58 (put16 ax)
      = Some (reply_header cfg reqbuff @ put16 ax @ drop 60 F)"
  using assms by (simp add: poke_def length_reply_header)

lemma header_poke5:
  assumes "60 \<le> length reqbuff" "60 \<le> length F" "length (mymac cfg) = 6"
  shows "poke (reply_header cfg reqbuff @ put16 ax0 @ drop 60 F) 58 (put16 ax)
      = Some (reply_header cfg reqbuff @ put16 ax @ drop 60 F)"
  using assms by (simp add: poke_def length_reply_header)

lemma header_poke6:
  assumes "60 \<le> length reqbuff" "60 \<le> length F" "length (mymac cfg) = 6"
  shows "poke (reply_header cfg reqbuff @ put16 ax @ drop 60 F) 60 bs
      = (if 60 + length bs \<le> length F
         then Some (reply_header cfg reqbuff @ put16 ax @ bs @ drop (60 + length bs) F) else None)"
  using assms by (auto simp: poke_def length_reply_header add.commute)

lemma process_dispatch:
  assumes len: "60 \<le> reqbufflen" and rb: "60 \<le> length reqbuff"
    and fr: "60 \<le> length (frame answer)" and mac: "length (mymac cfg) = 6"
    and miss: "\<not> cache_hit answer reqbuff"
    and drv: "2 \<le> unat (reqbuff ! 58 AND 31)" "unat (reqbuff ! 58 AND 31) \<le> 25"
    and root: "rootarray cfg (unat (reqbuff ! 58 AND 31)) = Some root"
  shows "process cfg answer reqbuff reqbufflen w =
     (case dispatch cfg (unat (reqbuff ! 59)) (unat (reqbuff ! 58 AND 31)) root
             (drop 60 reqbuff) (reqbufflen - 60) w of
        None \<Rightarrow> None
      | Some (Ret r, w') \<Rightarrow>
          Some (r, reply_header cfg reqbuff @ put16 0 @ drop 60 (frame answer), w')
      | Some (Ans ax bs, w') \<Rightarrow>
          if 60 + length bs \<le> length (frame answer)
          then Some (int (length bs) + 60,
                     reply_header cfg reqbuff @ put16 ax @ bs @ drop (60 + length bs) (frame answer), w')
          else None)"
proof -
  note p = header_poke1 [OF rb fr] header_poke2 [OF rb fr] header_poke3 [OF rb fr mac]
    header_poke4 [OF rb fr mac] header_poke5 [OF rb fr mac] header_poke6 [OF rb fr mac]
  have c: "\<not> reqbufflen < 60" "\<not> (length reqbuff < 60 \<or> length (frame answer) < 60)"
    "\<not> (unat (reqbuff ! 58 AND 31) < 2 \<or> 25 < unat (reqbuff ! 58 AND 31))"
    using len rb fr drv by auto
  show ?thesis
    unfolding process_def
    by (simp only: c miss if_False p Option.bind.simps Let_def root option.case)
       (auto split: option.splits dres.splits)
qed

lemma process_reject:
  assumes len: "60 \<le> reqbufflen" and rb: "60 \<le> length reqbuff"
    and fr: "60 \<le> length (frame answer)" and mac: "length (mymac cfg) = 6"
    and miss: "\<not> cache_hit answer reqbuff"
    and drv: "\<not> (2 \<le> unat (reqbuff ! 58 AND 31) \<and> unat (reqbuff ! 58 AND 31) \<le> 25 \<and>
                rootarray cfg (unat (reqbuff ! 58 AND 31)) \<noteq> None)"
  shows "process cfg answer reqbuff reqbufflen w =
           Some (-3, reply_header cfg reqbuff @ take 2 (drop 58 reqbuff) @ drop 60 (frame answer), w)"
proof -
  note p = header_poke1 [OF rb fr] header_poke2 [OF rb fr] header_poke3 [OF rb fr mac]
  have c: "\<not> reqbufflen < 60" "\<not> (length reqbuff < 60 \<or> length (frame answer) < 60)"
    using len rb fr by auto
  show ?thesis
    unfolding process_def
    by (simp only: c miss if_False p Option.bind.simps Let_def)
       (use drv in \<open>auto split: option.splits\<close>)
qed

lemma dispatch_readfil_bad:
  "reqbufflen \<noteq> 8 \<Longrightarrow> dispatch cfg 0x08 reqdrv root req reqbufflen w = Some (Ret (-1), w)"
  by (simp add: dispatch_def)

subsection \<open>The answer cache\<close>



lemma findcacheentry_loop_spec:
  "old < i + n \<Longrightarrow>
   (let r = findcacheentry_loop c mac n i old in
      r < i + n \<and>
      ((i \<le> r \<and> take 6 (frame (c ! r)) = mac \<and> (\<forall>k. i \<le> k \<and> k < r \<longrightarrow> take 6 (frame (c ! k)) \<noteq> mac))
       \<or> (\<forall>k. i \<le> k \<and> k < i + n \<longrightarrow> take 6 (frame (c ! k)) \<noteq> mac)))"
proof (induction n arbitrary: i old)
  case 0
  then show ?case by (auto simp: Let_def)
next
  case (Suc n)
  show ?case
  proof (cases "take 6 (frame (c ! i)) = mac")
    case True
    then show ?thesis by (auto simp: Let_def)
  next
    case False
    define old' where "old' = (if timestamp (c ! i) < timestamp (c ! old) then i else old)"
    have o: "old' < (i + 1) + n" using Suc.prems by (simp add: old'_def)
    define r where "r = findcacheentry_loop c mac n (i + 1) old'"
    from Suc.IH [OF o] have ih: "r < (i + 1) + n"
      "(i + 1 \<le> r \<and> take 6 (frame (c ! r)) = mac \<and> (\<forall>k. i + 1 \<le> k \<and> k < r \<longrightarrow> take 6 (frame (c ! k)) \<noteq> mac))
       \<or> (\<forall>k. i + 1 \<le> k \<and> k < (i + 1) + n \<longrightarrow> take 6 (frame (c ! k)) \<noteq> mac)"
      by (simp_all add: r_def Let_def)
    have e: "findcacheentry_loop c mac (Suc n) i old = r"
      using False by (simp add: r_def old'_def)
    have x: "take 6 (frame (c ! k)) \<noteq> mac" if "i \<le> k" "k < r" "\<forall>k. i + 1 \<le> k \<and> k < r \<longrightarrow> take 6 (frame (c ! k)) \<noteq> mac" for k
      using that False by (cases "k = i") auto
    have y: "take 6 (frame (c ! k)) \<noteq> mac" if "i \<le> k" "k < i + Suc n" "\<forall>k. i + 1 \<le> k \<and> k < (i + 1) + n \<longrightarrow> take 6 (frame (c ! k)) \<noteq> mac" for k
      using that False by (cases "k = i") auto
    from ih(2) show ?thesis
    proof
      assume a: "i + 1 \<le> r \<and> take 6 (frame (c ! r)) = mac \<and> (\<forall>k. i + 1 \<le> k \<and> k < r \<longrightarrow> take 6 (frame (c ! k)) \<noteq> mac)"
      then have "i \<le> r \<and> take 6 (frame (c ! r)) = mac \<and> (\<forall>k. i \<le> k \<and> k < r \<longrightarrow> take 6 (frame (c ! k)) \<noteq> mac)"
        using x by auto
      with ih(1) show ?thesis unfolding e Let_def by simp
    next
      assume "\<forall>k. i + 1 \<le> k \<and> k < (i + 1) + n \<longrightarrow> take 6 (frame (c ! k)) \<noteq> mac"
      then have "\<forall>k. i \<le> k \<and> k < i + Suc n \<longrightarrow> take 6 (frame (c ! k)) \<noteq> mac"
        using y by blast
      with ih(1) show ?thesis unfolding e Let_def by simp
    qed
  qed
qed

lemma findcacheentry_spec:
  "findcacheentry c mac < ANSWCACHESZ \<and>
   ((take 6 (frame (c ! findcacheentry c mac)) = mac \<and>
       (\<forall>k<findcacheentry c mac. take 6 (frame (c ! k)) \<noteq> mac))
    \<or> (\<forall>k<ANSWCACHESZ. take 6 (frame (c ! k)) \<noteq> mac))"
  using findcacheentry_loop_spec [of 0 0 ANSWCACHESZ c mac]
  by (auto simp: findcacheentry_def Let_def ANSWCACHESZ_def)

lemma poke_take: "poke buf off bs = Some buf' \<Longrightarrow> n \<le> off \<Longrightarrow> take n buf' = take n buf"
  by (auto simp: poke_def split: if_splits)

lemma process_frame_mac:
  assumes rb: "60 \<le> length reqbuff" and mac: "length (mymac cfg) = 6"
    and p: "process cfg a reqbuff len w = Some (r, fr, w')"
  shows "(0 < r \<longrightarrow> take 6 fr = take 6 (drop 6 reqbuff)) \<and>
         (take 6 fr = take 6 (frame a) \<or> take 6 fr = take 6 (drop 6 reqbuff))"
proof (cases "len < 60")
  case True
  with p show ?thesis by (simp add: process_def)
next
  case False
  then have len: "60 \<le> len" by simp
  from p False have fr: "60 \<le> length (frame a)"
    by (auto simp: process_def split: if_splits)
  have th: "take 6 (reply_header cfg reqbuff @ x) = take 6 (drop 6 reqbuff)" for x
    using rb by (simp add: reply_header_def)
  show ?thesis
  proof (cases "cache_hit a reqbuff")
    case True
    with p len rb fr show ?thesis by (auto simp: process_def cache_hit_def)
  next
    case miss: False
    show ?thesis
    proof (cases "2 \<le> unat (reqbuff ! 58 AND 31) \<and> unat (reqbuff ! 58 AND 31) \<le> 25 \<and>
                rootarray cfg (unat (reqbuff ! 58 AND 31)) \<noteq> None")
      case False
      from process_reject [OF len rb fr mac miss False, of w] p
      have "\<exists>x. fr = reply_header cfg reqbuff @ x" by auto
      then obtain x where "fr = reply_header cfg reqbuff @ x" ..
      then have "take 6 fr = take 6 (drop 6 reqbuff)" by (simp only: th)
      then show ?thesis by simp
    next
      case True
      then obtain root where root: "rootarray cfg (unat (reqbuff ! 58 AND 31)) = Some root"
        and drv: "2 \<le> unat (reqbuff ! 58 AND 31)" "unat (reqbuff ! 58 AND 31) \<le> 25" by auto
      from process_dispatch [OF len rb fr mac miss drv root, of w] p
      have "\<exists>x. fr = reply_header cfg reqbuff @ x"
        by (auto split: option.splits dres.splits if_splits)
      then obtain x where "fr = reply_header cfg reqbuff @ x" ..
      then have "take 6 fr = take 6 (drop 6 reqbuff)" by (simp only: th)
      then show ?thesis by simp
    qed
  qed
qed

lemma main_send_mac:
  assumes "main_send ck i len s = Some (sent, s')" "i < length (answcache_of s)"
  shows "take 6 (frame (answcache_of s' ! i)) = take 6 (frame (answcache_of s ! i)) \<and>
         alen (answcache_of s' ! i) = alen (answcache_of s ! i) \<and>
         (\<forall>k. k \<noteq> i \<longrightarrow> answcache_of s' ! k = answcache_of s ! k)"
  using assms
  by (auto simp: main_send_def Let_def poke_def split: if_splits Option.bind_splits)

lemma cache_inv_pointwise:
  assumes inv: "cache_inv c" and i: "i = findcacheentry c M"
    and other: "\<forall>k. k \<noteq> i \<longrightarrow> c' ! k = c ! k"
    and pos: "0 < alen (c' ! i) \<longrightarrow> take 6 (frame (c' ! i)) = M"
    and mac: "take 6 (frame (c' ! i)) = take 6 (frame (c ! i)) \<or> take 6 (frame (c' ! i)) = M"
  shows "cache_inv c'"
  unfolding cache_inv_def
proof (intro allI impI)
  fix j k
  assume j: "j < ANSWCACHESZ" and k: "k < j" and a: "0 < alen (c' ! j)"
  from findcacheentry_spec [of c M] i
  have spec: "(take 6 (frame (c ! i)) = M \<and> (\<forall>k<i. take 6 (frame (c ! k)) \<noteq> M))
              \<or> (\<forall>k<ANSWCACHESZ. take 6 (frame (c ! k)) \<noteq> M)" by simp
  show "take 6 (frame (c' ! k)) \<noteq> take 6 (frame (c' ! j))"
  proof (cases "j = i")
    case True
    with a pos have mj: "take 6 (frame (c' ! j)) = M" by simp
    from k True have ki: "k \<noteq> i" "k < i" by simp_all
    with other have ck: "c' ! k = c ! k" by simp
    from ki j True have "k < ANSWCACHESZ" by simp
    with spec ki have "take 6 (frame (c ! k)) \<noteq> M" by blast
    with ck mj show ?thesis by simp
  next
    case False
    with other have cj: "c' ! j = c ! j" by simp
    with a have aj: "0 < alen (c ! j)" by simp
    show ?thesis
    proof (cases "k = i")
      case False
      with other have "c' ! k = c ! k" by simp
      with cj inv j k aj show ?thesis by (simp add: cache_inv_def)
    next
      case True
      from inv j k aj have old: "take 6 (frame (c ! k)) \<noteq> take 6 (frame (c ! j))"
        by (simp add: cache_inv_def)
      from mac show ?thesis
      proof
        assume "take 6 (frame (c' ! i)) = take 6 (frame (c ! i))"
        with old True cj show ?thesis by simp
      next
        assume m: "take 6 (frame (c' ! i)) = M"
        have "take 6 (frame (c ! j)) \<noteq> M"
        proof
          assume mj: "take 6 (frame (c ! j)) = M"
          with j spec have "take 6 (frame (c ! i)) = M" by auto
          with old True mj show False by simp
        qed
        with m True cj show ?thesis by simp
      qed
    qed
  qed
qed

lemma cache_inv_main_turn:
  assumes inv: "cache_inv c" and lc: "length c = ANSWCACHESZ" and mac: "length (mymac cfg) = 6"
    and turn: "main_turn cfg buff len \<lparr>answcache_of = c, world_of = w\<rparr> = Some (sent, s')"
  shows "cache_inv (answcache_of s') \<and> length (answcache_of s') = ANSWCACHESZ"
proof -
  define M where "M = take 6 (drop 6 buff)"
  define i where "i = findcacheentry c M"
  from turn have rb: "60 \<le> length buff" by (auto simp: main_turn_def split: if_splits)
  from turn rb obtain r s1 where mp: "main_process cfg buff len \<lparr>answcache_of = c, world_of = w\<rparr> = Some (i, r, s1)"
    and ms: "main_send (drop_bit 7 (buff ! 56)) i r s1 = Some (sent, s')"
    by (auto simp: main_turn_def main_process_def i_def M_def Let_def split: if_splits Option.bind_splits)
  from mp rb obtain fr w' where p: "process cfg (c ! i) buff len w = Some (r, fr, w')"
    and s1: "answcache_of s1 = c[i := (if r \<ge> 0
                     then (c ! i)\<lparr>frame := fr, alen := nat r mod 65536, timestamp := clock (host_of w')\<rparr>
                     else (c ! i)\<lparr>frame := fr, alen := 0\<rparr>)]"
    by (auto simp: main_process_def i_def M_def Let_def split: if_splits Option.bind_splits)
  have il: "i < length c" using findcacheentry_spec [of c M] lc by (simp add: i_def)
  from process_frame_mac [OF rb mac p]
  have f: "0 < r \<longrightarrow> take 6 fr = M" "take 6 fr = take 6 (frame (c ! i)) \<or> take 6 fr = M"
    by (simp_all add: M_def)
  have l1: "length (answcache_of s1) = length c" by (simp add: s1)
  from main_send_mac [OF ms] il l1
  have sm: "take 6 (frame (answcache_of s' ! i)) = take 6 (frame (answcache_of s1 ! i))"
    "alen (answcache_of s' ! i) = alen (answcache_of s1 ! i)"
    "\<forall>k. k \<noteq> i \<longrightarrow> answcache_of s' ! k = answcache_of s1 ! k" by simp_all
  have e1: "take 6 (frame (answcache_of s1 ! i)) = take 6 fr" using il by (simp add: s1)
  have e2: "0 < alen (answcache_of s1 ! i) \<longrightarrow> 0 < r" using il by (auto simp: s1 split: if_splits)
  have e3: "\<forall>k. k \<noteq> i \<longrightarrow> answcache_of s1 ! k = c ! k" by (simp add: s1)
  have "cache_inv (answcache_of s')"
  proof (rule cache_inv_pointwise [OF inv i_def])
    show "\<forall>k. k \<noteq> i \<longrightarrow> answcache_of s' ! k = c ! k" using sm(3) e3 by simp
    show "0 < alen (answcache_of s' ! i) \<longrightarrow> take 6 (frame (answcache_of s' ! i)) = M"
      using sm e1 e2 f by simp
    show "take 6 (frame (answcache_of s' ! i)) = take 6 (frame (c ! i)) \<or>
          take 6 (frame (answcache_of s' ! i)) = M"
      using sm e1 f by simp
  qed
  moreover have "length (answcache_of s') = ANSWCACHESZ"
    using ms l1 lc by (auto simp: main_send_def Let_def split: if_splits Option.bind_splits)
  ultimately show ?thesis by simp
qed

lemma cache_inv_init:
  "cache_inv (replicate ANSWCACHESZ \<lparr>frame = replicate 1520 0, timestamp = 0, alen = 0\<rparr>)"
  by (simp add: cache_inv_def)


subsection \<open>Examples\<close>

lemma ex_request_length: "length (ex_request seq al) = 60"
  by (simp add: ex_request_def)

lemma ex_request_nth:
  "ex_request seq al ! 56 = 2" "ex_request seq al ! 57 = seq" "ex_request seq al ! 58 = 2" "ex_request seq al ! 59 = al"
  "take 6 (drop 6 (ex_request seq al)) = [0x02, 0, 0, 0, 0, 0x01]"
  by (simp_all add: ex_request_def)

lemma ex_request_app_nth:
  "(ex_request seq al @ p) ! 56 = 2" "(ex_request seq al @ p) ! 57 = seq"
  "(ex_request seq al @ p) ! 58 = 2" "(ex_request seq al @ p) ! 59 = al"
  "take 6 (drop 6 (ex_request seq al @ p)) = [0x02, 0, 0, 0, 0, 0x01]"
  "drop 60 (ex_request seq al @ p) = p"
  by (simp_all add: nth_append ex_request_length ex_request_nth)

lemma ex_miss: "\<not> cache_hit ex_answer r"
  by (simp add: cache_hit_def ex_answer_def)

lemma ex_drive: "unat ((2 :: byte) AND 31) = 2"
  by simp

subsection \<open>DISKSPACE\<close>






lemma diskspace_scenario:
  "process ex_cfg ex_answer (ex_request 1 0x0C) 60 ex_world =
     Some (66, [0x02, 0, 0, 0, 0, 0x01,  0x02, 0, 0, 0, 0, 0x09,  0xED, 0xF5,
      0, 0, 0, 0, 0, 0, 0, 0, 0, 0, 0, 0, 0, 0, 0, 0, 0, 0, 0,
      0, 0, 0, 0, 0, 0, 0, 0, 0, 0, 0, 0, 0, 0, 0, 0, 0, 0, 0,
      0, 0,  0, 0,  0x02, 1, 1, 0, 0x00, 0x80, 0x00, 0x80, 0x00, 0x20] @ replicate 1454 0, ex_world)"
proof -
  have h1: "(60::int) \<le> 60" by simp
  have h2: "60 \<le> length (ex_request 1 0x0C)" by (simp add: ex_request_length)
  have h3: "60 \<le> length (frame ex_answer)" by (simp add: ex_answer_def)
  have h4: "length (mymac ex_cfg) = 6" by (simp add: ex_cfg_def)
  have h5: "\<not> cache_hit ex_answer (ex_request 1 0x0C)" by (rule ex_miss)
  have h6: "2 \<le> unat (ex_request 1 0x0C ! 58 AND 31)" "unat (ex_request 1 0x0C ! 58 AND 31) \<le> 25"
    by (simp_all add: ex_request_nth)
  have h7: "rootarray ex_cfg (unat (ex_request 1 0x0C ! 58 AND 31)) = Some ''/srv''"
    by (simp add: ex_request_nth ex_cfg_def)
  show ?thesis
    unfolding process_dispatch [OF h1 h2 h3 h4 h5 h6 h7]
    by (simp add: ex_request_nth dispatch_def do_diskspace_def diskinfo_def ex_world_def ex_host_def
        clamp2g_def put16_def reply_header_def ex_request_def ex_cfg_def ex_answer_def)
qed

subsection \<open>READFILE and WRITEFILE\<close>

text \<open>
  Claim C9. A READFILE request (\<open>AL = 0x08\<close>) whose payload is not 8 bytes long, not
  answered from the cache: no branch of the dispatcher takes it, \<open>process\<close> returns -1
  from the branch of the unknown queries (-3 when the drive is not valid or not mapped)
  and changes nothing outside the answer cache; the turn of the main loop sends no frame
  and marks the cache entry empty.
\<close>

theorem readfil_bad_length:
  assumes idx: "i = findcacheentry (answcache_of s) (take 6 (drop 6 reqbuff))"
    and len: "60 \<le> reqbufflen" and rb: "60 \<le> length reqbuff"
    and fr: "60 \<le> length (frame (answcache_of s ! i))" and mac: "length (mymac cfg) = 6"
    and miss: "\<not> cache_hit (answcache_of s ! i) reqbuff"
    and query: "reqbuff ! 59 = 0x08" and bad: "reqbufflen - 60 \<noteq> 8"
  shows "\<exists>code fr'.
           process cfg (answcache_of s ! i) reqbuff reqbufflen (world_of s) = Some (code, fr', world_of s) \<and>
           code = (if 2 \<le> unat (reqbuff ! 58 AND 31) \<and> unat (reqbuff ! 58 AND 31) \<le> 25 \<and>
                      rootarray cfg (unat (reqbuff ! 58 AND 31)) \<noteq> None then -1 else -3) \<and>
           code < 0 \<and>
           main_turn cfg reqbuff reqbufflen s =
             Some (None, \<lparr>answcache_of = (answcache_of s)[i := (answcache_of s ! i)\<lparr>frame := fr', alen := 0\<rparr>],
                          world_of = world_of s\<rparr>)"
proof (cases "2 \<le> unat (reqbuff ! 58 AND 31) \<and> unat (reqbuff ! 58 AND 31) \<le> 25 \<and>
                rootarray cfg (unat (reqbuff ! 58 AND 31)) \<noteq> None")
  case True
  then obtain root where root: "rootarray cfg (unat (reqbuff ! 58 AND 31)) = Some root"
    and drv: "2 \<le> unat (reqbuff ! 58 AND 31)" "unat (reqbuff ! 58 AND 31) \<le> 25" by auto
  have q: "unat (reqbuff ! 59) = 0x08" using query by simp
  have p: "process cfg (answcache_of s ! i) reqbuff reqbufflen (world_of s) =
      Some (-1, reply_header cfg reqbuff @ put16 0 @ drop 60 (frame (answcache_of s ! i)), world_of s)"
    by (simp add: process_dispatch [OF len rb fr mac miss drv root] q dispatch_readfil_bad [OF bad])
  have "main_turn cfg reqbuff reqbufflen s =
             Some (None, \<lparr>answcache_of = (answcache_of s)[i := (answcache_of s ! i)\<lparr>frame := reply_header cfg reqbuff @ put16 0 @ drop 60 (frame (answcache_of s ! i)), alen := 0\<rparr>],
                          world_of = world_of s\<rparr>)"
    using rb p by (simp add: main_turn_def main_process_def main_send_def idx [symmetric] Let_def)
  with p True show ?thesis by simp
next
  case False
  have p: "process cfg (answcache_of s ! i) reqbuff reqbufflen (world_of s) =
      Some (-3, reply_header cfg reqbuff @ take 2 (drop 58 reqbuff) @ drop 60 (frame (answcache_of s ! i)), world_of s)"
    by (rule process_reject [OF len rb fr mac miss False])
  have "main_turn cfg reqbuff reqbufflen s =
             Some (None, \<lparr>answcache_of = (answcache_of s)[i := (answcache_of s ! i)\<lparr>frame := reply_header cfg reqbuff @ take 2 (drop 58 reqbuff) @ drop 60 (frame (answcache_of s ! i)), alen := 0\<rparr>],
                          world_of = world_of s\<rparr>)"
    using rb p by (simp add: main_turn_def main_process_def main_send_def idx [symmetric] Let_def)
  with p False show ?thesis by simp
qed

text \<open>
  Claim C10. A WRITEFILE request (\<open>AL = 0x09\<close>) with the 6 bytes of offset and handle
  and no data, for a handle that names a file, to a mapped drive and not answered from
  the cache: \<open>writefile\<close> returns 0 and the answer is 62 bytes long with \<open>AX = 0\<close> and
  0 bytes written, whether \<open>truncate\<close> succeeds or fails; when it fails nothing is
  changed at all.
\<close>

theorem writefil_truncate_reply:
  assumes rb: "66 \<le> length reqbuff"
    and fr: "62 \<le> length (frame answer)" and mac: "length (mymac cfg) = 6"
    and miss: "\<not> cache_hit answer reqbuff"
    and drv: "2 \<le> unat (reqbuff ! 58 AND 31)" "unat (reqbuff ! 58 AND 31) \<le> 25"
    and root: "rootarray cfg (unat (reqbuff ! 58 AND 31)) = Some root"
    and query: "reqbuff ! 59 = 0x09"
    and handle: "name (fsdb_of w (le16 (take 2 (drop 64 reqbuff)))) = Some fname"
  shows "\<exists>h'. h' = (case h_truncate (host_of w) fname (le32 (take 4 (drop 60 reqbuff))) of
                       None \<Rightarrow> host_of w | Some h'' \<Rightarrow> h'') \<and>
           writefile (host_of w) (fsdb_of w) [] (le16 (take 2 (drop 64 reqbuff)))
             (le32 (take 4 (drop 60 reqbuff))) = (0, h') \<and>
           process cfg answer reqbuff 66 w =
             Some (62, reply_header cfg reqbuff @ put16 0 @ put16 0 @ drop 62 (frame answer),
                   w\<lparr>host_of := h'\<rparr>) \<and>
           (h_truncate (host_of w) fname (le32 (take 4 (drop 60 reqbuff))) = None \<longrightarrow>
              process cfg answer reqbuff 66 w =
                Some (62, reply_header cfg reqbuff @ put16 0 @ put16 0 @ drop 62 (frame answer), w))"
proof -
  define h' where "h' = (case h_truncate (host_of w) fname (le32 (take 4 (drop 60 reqbuff))) of
                       None \<Rightarrow> host_of w | Some h'' \<Rightarrow> h'')"
  have wf: "writefile (host_of w) (fsdb_of w) [] (le16 (take 2 (drop 64 reqbuff)))
             (le32 (take 4 (drop 60 reqbuff))) = (0, h')"
    using handle by (simp add: writefile_def h'_def split: option.splits)
  have r: "rd (drop 60 reqbuff) 0 6 = Some (take 6 (drop 60 reqbuff))"
    using rb by (simp add: rd_def)
  have t: "take 4 (take 6 (drop 60 reqbuff)) = take 4 (drop 60 reqbuff)"
    "take 2 (drop 4 (take 6 (drop 60 reqbuff))) = take 2 (drop 64 reqbuff)"
    "drop 6 (take 6 (drop 60 reqbuff)) = []"
    by (simp_all add: drop_take)
  have d: "dispatch cfg (unat (reqbuff ! 59)) (unat (reqbuff ! 58 AND 31)) root
             (drop 60 reqbuff) 6 w = Some (Ans 0 (put16 0), w\<lparr>host_of := h'\<rparr>)"
    by (simp add: dispatch_def query do_writefil_def r t wf)
  have len: "(60::int) \<le> 66" and fr60: "60 \<le> length (frame answer)" and rb60: "60 \<le> length reqbuff" using fr rb by simp_all
  have p: "process cfg answer reqbuff 66 w =
             Some (62, reply_header cfg reqbuff @ put16 0 @ put16 0 @ drop 62 (frame answer),
                   w\<lparr>host_of := h'\<rparr>)"
    using fr by (simp add: process_dispatch [OF len rb60 fr60 mac miss drv root] d)
  show ?thesis using wf p by (auto simp: h'_def)
qed

subsection \<open>The theorems on the example server\<close>

lemma ex_findcacheentry: "findcacheentry (replicate ANSWCACHESZ ex_answer) [0x02, 0, 0, 0, 0, 0x01] = 0"
  by (simp add: findcacheentry_def ANSWCACHESZ_def ex_answer_def eval_nat_numeral)

text \<open>
  The theorem of claim C9 on the example server: a READFILE request with 7 bytes of
  payload is dropped with -1 and nothing is sent.
\<close>

theorem readfil_bad_length_witness:
  "0 = findcacheentry (answcache_of ex_server) (take 6 (drop 6 (ex_request 1 0x08 @ [0, 0, 0, 0, 0, 0, 0]))) \<and>
   (60::int) \<le> 67 \<and> 60 \<le> length (ex_request 1 0x08 @ [0, 0, 0, 0, 0, 0, 0]) \<and>
   60 \<le> length (frame (answcache_of ex_server ! 0)) \<and> length (mymac ex_cfg) = 6 \<and>
   \<not> cache_hit (answcache_of ex_server ! 0) (ex_request 1 0x08 @ [0, 0, 0, 0, 0, 0, 0]) \<and>
   (ex_request 1 0x08 @ [0, 0, 0, 0, 0, 0, 0]) ! 59 = 0x08 \<and> (67::int) - 60 \<noteq> 8 \<and>
   (\<exists>fr'. process ex_cfg (answcache_of ex_server ! 0) (ex_request 1 0x08 @ [0, 0, 0, 0, 0, 0, 0]) 67
             (world_of ex_server) = Some (-1, fr', world_of ex_server) \<and>
          main_turn ex_cfg (ex_request 1 0x08 @ [0, 0, 0, 0, 0, 0, 0]) 67 ex_server =
             Some (None, \<lparr>answcache_of = (answcache_of ex_server)
                             [0 := (answcache_of ex_server ! 0)\<lparr>frame := fr', alen := 0\<rparr>],
                          world_of = world_of ex_server\<rparr>))"
proof -
  let ?r = "ex_request 1 0x08 @ [0, 0, 0, 0, 0, 0, 0]"
  have c0: "answcache_of ex_server ! 0 = ex_answer" by (simp add: ex_server_def ANSWCACHESZ_def)
  have h0: "0 = findcacheentry (answcache_of ex_server) (take 6 (drop 6 ?r))"
    by (simp add: ex_request_def ex_server_def ex_findcacheentry)
  have h1: "(60::int) \<le> 67" by simp
  have h2: "60 \<le> length ?r" by (simp add: ex_request_length)
  have h3: "60 \<le> length (frame (answcache_of ex_server ! 0))" by (simp add: c0 ex_answer_def)
  have h4: "length (mymac ex_cfg) = 6" by (simp add: ex_cfg_def)
  have h5: "\<not> cache_hit (answcache_of ex_server ! 0) ?r" by (simp add: c0 ex_miss)
  have h6: "?r ! 59 = 0x08" by (simp add: ex_request_def)
  have h7: "(67::int) - 60 \<noteq> 8" by simp
  have d: "2 \<le> unat (?r ! 58 AND 31) \<and> unat (?r ! 58 AND 31) \<le> 25 \<and>
           rootarray ex_cfg (unat (?r ! 58 AND 31)) \<noteq> None"
    by (simp add: ex_request_def ex_cfg_def)
  from readfil_bad_length [OF h0 h1 h2 h3 h4 h5 h6 h7, of ] d
  have "\<exists>fr'. process ex_cfg (answcache_of ex_server ! 0) ?r 67 (world_of ex_server)
               = Some (-1, fr', world_of ex_server) \<and>
          main_turn ex_cfg ?r 67 ex_server =
             Some (None, \<lparr>answcache_of = (answcache_of ex_server)
                             [0 := (answcache_of ex_server ! 0)\<lparr>frame := fr', alen := 0\<rparr>],
                          world_of = world_of ex_server\<rparr>)"
    by auto
  with h0 h1 h2 h3 h4 h5 h6 h7 show ?thesis by blast
qed

lemma ex_truncate_dir: "h_truncate ex_host ''/srv/Sub'' 5 = None"
  by (simp add: h_truncate_def resolve_def tokens_def node_at_def ex_host_def ex_dir_def)

text \<open>
  The theorem of claim C10 where \<open>truncate\<close> fails: handle 0 names the directory
  \<open>/srv/Sub\<close>. The answer still has \<open>AX = 0\<close> and 0 bytes written.
\<close>

theorem writefil_truncate_reply_witness:
  "66 \<le> length (ex_request 1 0x09 @ [5, 0, 0, 0, 0, 0]) \<and> 62 \<le> length (frame ex_answer) \<and>
   length (mymac ex_cfg) = 6 \<and> \<not> cache_hit ex_answer (ex_request 1 0x09 @ [5, 0, 0, 0, 0, 0]) \<and>
   2 \<le> unat ((ex_request 1 0x09 @ [5, 0, 0, 0, 0, 0]) ! 58 AND 31) \<and>
   unat ((ex_request 1 0x09 @ [5, 0, 0, 0, 0, 0]) ! 58 AND 31) \<le> 25 \<and>
   rootarray ex_cfg (unat ((ex_request 1 0x09 @ [5, 0, 0, 0, 0, 0]) ! 58 AND 31)) = Some ''/srv'' \<and>
   (ex_request 1 0x09 @ [5, 0, 0, 0, 0, 0]) ! 59 = 0x09 \<and>
   name (fsdb_of (ex_world\<lparr>fsdb_of := fsdb_init(0 := \<lparr>name = Some ''/srv/Sub'', lastused = 1700000000, dirlist = DNull\<rparr>)\<rparr>)
           (le16 (take 2 (drop 64 (ex_request 1 0x09 @ [5, 0, 0, 0, 0, 0]))))) = Some ''/srv/Sub'' \<and>
   h_truncate ex_host ''/srv/Sub'' 5 = None \<and>
   process ex_cfg ex_answer (ex_request 1 0x09 @ [5, 0, 0, 0, 0, 0]) 66
     (ex_world\<lparr>fsdb_of := fsdb_init(0 := \<lparr>name = Some ''/srv/Sub'', lastused = 1700000000, dirlist = DNull\<rparr>)\<rparr>) =
     Some (62, reply_header ex_cfg (ex_request 1 0x09 @ [5, 0, 0, 0, 0, 0]) @ put16 0 @ put16 0
                 @ drop 62 (frame ex_answer),
           ex_world\<lparr>fsdb_of := fsdb_init(0 := \<lparr>name = Some ''/srv/Sub'', lastused = 1700000000, dirlist = DNull\<rparr>)\<rparr>)"
proof -
  let ?r = "ex_request 1 0x09 @ [5, 0, 0, 0, 0, 0]"
  let ?w = "ex_world\<lparr>fsdb_of := fsdb_init(0 := \<lparr>name = Some ''/srv/Sub'', lastused = 1700000000, dirlist = DNull\<rparr>)\<rparr>"
  have h1: "66 \<le> length ?r" by (simp add: ex_request_length)
  have h2: "62 \<le> length (frame ex_answer)" by (simp add: ex_answer_def)
  have h3: "length (mymac ex_cfg) = 6" by (simp add: ex_cfg_def)
  have h4: "\<not> cache_hit ex_answer ?r" by (rule ex_miss)
  have h5: "2 \<le> unat (?r ! 58 AND 31)" "unat (?r ! 58 AND 31) \<le> 25" by (simp_all add: ex_request_def)
  have h6: "rootarray ex_cfg (unat (?r ! 58 AND 31)) = Some ''/srv''"
    by (simp add: ex_request_def ex_cfg_def)
  have h7: "?r ! 59 = 0x09" by (simp add: ex_request_def)
  have id: "le16 (take 2 (drop 64 ?r)) = 0" "le32 (take 4 (drop 60 ?r)) = 5"
    by (simp_all add: ex_request_def le16_def le32_def)
  have h8: "name (fsdb_of ?w (le16 (take 2 (drop 64 ?r)))) = Some ''/srv/Sub''"
    by (simp only: id) simp
  have t: "h_truncate (host_of ?w) ''/srv/Sub'' (le32 (take 4 (drop 60 ?r))) = None"
    by (simp only: id) (simp add: ex_world_def ex_truncate_dir)
  from writefil_truncate_reply [OF h1 h2 h3 h4 h5 h6 h7 h8] t
  have "process ex_cfg ex_answer ?r 66 ?w =
     Some (62, reply_header ex_cfg ?r @ put16 0 @ put16 0 @ drop 62 (frame ex_answer), ?w)"
    by blast
  with h1 h2 h3 h4 h5 h6 h7 h8 ex_truncate_dir show ?thesis by blast
qed




subsection \<open>RENAME\<close>










subsection \<open>DELETE\<close>

lemma dispatch_delete:
  "dispatch cfg 0x13 reqdrv root req reqbufflen w = do_delete cfg reqdrv root req reqbufflen w"
  by (simp add: dispatch_def)

text \<open>
  Claim C6: what the DELETE branch (\<open>AL = 0x13\<close>) does with a path that
  \<open>shorttolong\<close> does not resolve. The reply has 60 bytes and \<open>AX = 2\<close>, \<open>delfiles\<close> is
  not called, and neither the host nor the file cache changes. \<open>shorttolong\<close> compares
  the FCB name of each path component with the FCB names of the directory entries for
  equality, so a last component with a \<open>?\<close> is resolved only by an entry of that very
  name: on the example server the request for \<open>????????.TXT\<close> in the root directory removes nothing, although
  \<open>a.txt\<close> matches the mask and \<open>delfiles\<close> on the directory would remove it.
\<close>

theorem delete_unresolved:
  assumes len: "60 \<le> reqbufflen" and rb: "nat reqbufflen \<le> length reqbuff"
    and fr: "60 \<le> length (frame answer)" and mac: "length (mymac cfg) = 6"
    and miss: "\<not> cache_hit answer reqbuff"
    and drv: "2 \<le> unat (reqbuff ! 58 AND 31)" "unat (reqbuff ! 58 AND 31) \<le> 25"
    and root: "rootarray cfg (unat (reqbuff ! 58 AND 31)) = Some root"
    and query: "reqbuff ! 59 = 0x13"
    and s: "shorttolong (host_of w)
              (hostpath root (take (nat (reqbufflen - 60)) (drop 60 reqbuff))) root = Some (r, p)"
    and r: "r \<noteq> 0"
  shows "process cfg answer reqbuff reqbufflen w =
           Some (60, reply_header cfg reqbuff @ put16 2 @ drop 60 (frame answer), w)"
proof -
  have rb60: "60 \<le> length reqbuff" using len rb by simp
  have q: "unat (reqbuff ! 59) = 0x13" using query by simp
  have b: "rd (drop 60 reqbuff) 0 (nat (reqbufflen - 60)) =
             Some (take (nat (reqbufflen - 60)) (drop 60 reqbuff))"
    using rb len by (simp add: rd_def)
  have d: "dispatch cfg (unat (reqbuff ! 59)) (unat (reqbuff ! 58 AND 31)) root
             (drop 60 reqbuff) (reqbufflen - 60) w = Some (Ans 2 [], w)"
    using r by (simp add: q dispatch_delete do_delete_def b s)
  show ?thesis
    using fr by (simp add: process_dispatch [OF len rb60 fr mac miss drv root] d)
qed

lemma ex_delete_path:
  "hostpath ''/srv'' [0x5C, 0x3F, 0x3F, 0x3F, 0x3F, 0x3F, 0x3F, 0x3F, 0x3F, 0x2E, 0x54, 0x58, 0x54]
     = ''/srv//????????.txt''"
  by code_simp

lemma ex_s2l_wild: "shorttolong ex_host ''/srv//????????.txt'' ''/srv'' = Some (-1, ''/srv/????????.txt'')"
  by code_simp

lemma ex_stat_a2: "h_stat ex_host ''/srv/a.txt'' = Some (ex_file [1, 2, 3])"
  by code_simp

lemma ex_fcb_a: "filename2fcb ''a.txt'' = Some ''A       TXT''"
  by code_simp

lemma ex_fcb_mask: "filename2fcb ''????????.txt'' = Some ''????????TXT''"
  by code_simp

lemma ex_match_a: "matchfile2mask ''????????TXT'' ''A       TXT''"
  by code_simp

lemma ex_delfiles:
  "delfiles ex_host ''/srv/????????.txt'' =
     Some (0, ex_host\<lparr>fs := [([], ex_dir), ([''srv''], ex_dir), ([''srv'', ''Sub''], ex_dir),
                              ([''srv'', ''Sub'', ''b.txt''], ex_file [4, 5])]\<rparr>)"
  by code_simp

theorem delete_unresolved_witness:
  "shorttolong (host_of ex_world)
     (hostpath ''/srv'' [0x5C, 0x3F, 0x3F, 0x3F, 0x3F, 0x3F, 0x3F, 0x3F, 0x3F, 0x2E, 0x54, 0x58, 0x54]) ''/srv''
     = Some (-1, ''/srv/????????.txt'') \<and>
   process ex_cfg ex_answer
     (ex_request 1 0x13 @ [0x5C, 0x3F, 0x3F, 0x3F, 0x3F, 0x3F, 0x3F, 0x3F, 0x3F, 0x2E, 0x54, 0x58, 0x54])
     73 ex_world =
     Some (60, reply_header ex_cfg (ex_request 1 0x13 @ [0x5C, 0x3F, 0x3F, 0x3F, 0x3F, 0x3F, 0x3F, 0x3F, 0x3F, 0x2E, 0x54, 0x58, 0x54])
                 @ put16 2 @ drop 60 (frame ex_answer), ex_world) \<and>
   h_stat (host_of ex_world) ''/srv/a.txt'' = Some (ex_file [1, 2, 3]) \<and>
   filename2fcb ''a.txt'' = Some ''A       TXT'' \<and>
   filename2fcb ''????????.txt'' = Some ''????????TXT'' \<and>
   matchfile2mask ''????????TXT'' ''A       TXT'' \<and>
   delfiles (host_of ex_world) ''/srv/????????.txt'' =
     Some (0, ex_host\<lparr>fs := [([], ex_dir), ([''srv''], ex_dir), ([''srv'', ''Sub''], ex_dir),
                              ([''srv'', ''Sub'', ''b.txt''], ex_file [4, 5])]\<rparr>)"
proof -
  let ?p = "[0x5C, 0x3F, 0x3F, 0x3F, 0x3F, 0x3F, 0x3F, 0x3F, 0x3F, 0x2E, 0x54, 0x58, 0x54] :: byte list"
  let ?r = "ex_request 1 0x13 @ ?p"
  have h1: "(60::int) \<le> 73" by simp
  have h2: "nat 73 \<le> length ?r" by (simp add: ex_request_length)
  have h3: "60 \<le> length (frame ex_answer)" by (simp add: ex_answer_def)
  have h4: "length (mymac ex_cfg) = 6" by (simp add: ex_cfg_def)
  have h5: "\<not> cache_hit ex_answer ?r" by (rule ex_miss)
  have h6: "2 \<le> unat (?r ! 58 AND 31)" "unat (?r ! 58 AND 31) \<le> 25" by (simp_all add: ex_request_def)
  have h7: "rootarray ex_cfg (unat (?r ! 58 AND 31)) = Some ''/srv''"
    by (simp add: ex_request_def ex_cfg_def)
  have h8: "?r ! 59 = 0x13" by (simp add: ex_request_def)
  have s: "shorttolong (host_of ex_world) (hostpath ''/srv'' ?p) ''/srv'' = Some (-1, ''/srv/????????.txt'')"
    by (simp only: ex_delete_path) (simp add: ex_world_def ex_s2l_wild)
  have t: "take (nat (73 - 60)) (drop 60 ?r) = ?p" by (simp add: ex_request_length)
  have h9: "shorttolong (host_of ex_world) (hostpath ''/srv'' (take (nat (73 - 60)) (drop 60 ?r))) ''/srv''
              = Some (-1, ''/srv/????????.txt'')"
    by (simp only: t s)
  have h10: "(-1::int) \<noteq> 0" by simp
  have a: "h_stat (host_of ex_world) ''/srv/a.txt'' = Some (ex_file [1, 2, 3])"
    by (simp add: ex_world_def ex_stat_a2)
  have d: "delfiles (host_of ex_world) ''/srv/????????.txt'' =
     Some (0, ex_host\<lparr>fs := [([], ex_dir), ([''srv''], ex_dir), ([''srv'', ''Sub''], ex_dir),
                              ([''srv'', ''Sub'', ''b.txt''], ex_file [4, 5])]\<rparr>)"
    by (simp add: ex_world_def ex_delfiles)
  from delete_unresolved [OF h1 h2 h3 h4 h5 h6 h7 h8 h9 h10] s a d ex_fcb_a ex_fcb_mask ex_match_a
  show ?thesis by blast
qed

end
